theory Spec2Isabelle
  imports Main "HOL-Library.Word" "HOL-Library.Signed_Division"
begin

unbundle bit_operations_syntax

section \<open>The goloader relocation engine (dymcode.go) as HOL functions\<close>

text \<open>
  The development follows \<^verbatim>\<open>src/dymcode.go\<close>: the symbol table builder
  (\<^verbatim>\<open>addSym\<close>, \<^verbatim>\<open>relocSym\<close>), the address resolver
  (\<^verbatim>\<open>addSymAddrs\<close>), the relocation engine (\<^verbatim>\<open>relocate\<close>,
  \<^verbatim>\<open>relocADRP\<close>), the function table of \<^verbatim>\<open>buildModule\<close>, the module
  registry (\<^verbatim>\<open>addModule\<close>, \<^verbatim>\<open>removeModule\<close>) and the entry points
  \<^verbatim>\<open>Load\<close> and \<^verbatim>\<open>Unload\<close>.
\<close>

subsection \<open>Machine values, panics and byte buffers\<close>

text \<open>
  The loader runs on a 64-bit little-endian host (the x86-64 and AArch64 stubs it emits
  hold 8-byte pointers): Go's \<^verbatim>\<open>int\<close> and \<^verbatim>\<open>uintptr\<close> are 64-bit words,
  \<^verbatim>\<open>int\<close> read as two's complement. Conversions between them keep the bits.
\<close>

type_synonym byte = "8 word"
type_synonym goint = "64 word"
type_synonym uintptr = "64 word"
type_synonym uint32 = "32 word"
type_synonym int32 = "32 word"

text \<open>Heap objects (\<^verbatim>\<open>moduledata\<close> nodes) are named by an address.\<close>

type_synonym addr = nat

text \<open>
  A run-time panic ends the whole call. \<open>UnsafeWriteOutOfBounds\<close> is not a Go panic:
  it marks a store through \<^verbatim>\<open>unsafe.Pointer\<close> that reaches past the end of the slice
  it was taken from, after which the memory outside the modelled buffers is no longer
  known.
\<close>

datatype fault =
    IndexOutOfRange
  | SliceBoundsOutOfRange
  | ReadError
  | LenOutOfRange
  | UnsafeWriteOutOfBounds

definition bindE :: "fault + 'a \<Rightarrow> ('a \<Rightarrow> fault + 'b) \<Rightarrow> fault + 'b" where
  "bindE m f = (case m of Inl e \<Rightarrow> Inl e | Inr x \<Rightarrow> f x)"

text \<open>\<^verbatim>\<open>xs[i]\<close> read and written, and the bounds test of \<^verbatim>\<open>xs[i:]\<close>.\<close>

definition index :: "'a list \<Rightarrow> goint \<Rightarrow> fault + 'a" where
  "index xs i = (if 0 \<le>s i \<and> unat i < length xs then Inr (xs ! unat i) else Inl IndexOutOfRange)"

definition setIndex :: "'a list \<Rightarrow> goint \<Rightarrow> 'a \<Rightarrow> fault + 'a list" where
  "setIndex xs i v =
     (if 0 \<le>s i \<and> unat i < length xs then Inr (xs[unat i := v]) else Inl IndexOutOfRange)"

definition setAt :: "'a list \<Rightarrow> nat \<Rightarrow> 'a \<Rightarrow> fault + 'a list" where
  "setAt xs i v = (if i < length xs then Inr (xs[i := v]) else Inl IndexOutOfRange)"

definition sliceOK :: "'a list \<Rightarrow> goint \<Rightarrow> bool" where
  "sliceOK xs i \<longleftrightarrow> 0 \<le>s i \<and> unat i \<le> length xs"

definition len :: "'a list \<Rightarrow> goint" where
  "len xs = of_nat (length xs)"

text \<open>Go's \<^verbatim>\<open>/\<close> and \<^verbatim>\<open>%\<close> on \<^verbatim>\<open>int\<close> truncate towards zero.\<close>

definition quo :: "goint \<Rightarrow> goint \<Rightarrow> goint" where
  "quo a b = word_of_int (sint a sdiv sint b)"

definition rem :: "goint \<Rightarrow> goint \<Rightarrow> goint" where
  "rem a b = word_of_int (sint a smod sint b)"

text \<open>
  Little-endian stores. \<open>overwrite xs n ys\<close> replaces the elements of \<open>xs\<close> from
  position \<open>n\<close> by \<open>ys\<close>; every caller has checked that \<open>ys\<close> fits.
\<close>

definition le_bytes :: "nat \<Rightarrow> 'a::len word \<Rightarrow> byte list" where
  "le_bytes n w = map (\<lambda>k. ucast (drop_bit (8 * k) w)) [0..<n]"

definition overwrite :: "'a list \<Rightarrow> nat \<Rightarrow> 'a list \<Rightarrow> 'a list" where
  "overwrite xs n ys = take n xs @ ys @ drop (n + length ys) xs"

text \<open>
  \<^verbatim>\<open>binary.LittleEndian.PutUint32(b[off:], v)\<close>: the slice expression panics unless
  \<open>0 \<le> off \<le> len(b)\<close>, and \<^verbatim>\<open>PutUint32\<close> panics (its \<^verbatim>\<open>_ = b[3]\<close>) when fewer
  than four bytes remain. \<^verbatim>\<open>PutUint64\<close> likewise with eight.
\<close>

definition PutUint32 :: "byte list \<Rightarrow> goint \<Rightarrow> uint32 \<Rightarrow> fault + byte list" where
  "PutUint32 b off v =
     (if \<not> sliceOK b off then Inl SliceBoundsOutOfRange
      else if length b - unat off < 4 then Inl IndexOutOfRange
      else Inr (overwrite b (unat off) (le_bytes 4 v)))"

definition PutUint64 :: "byte list \<Rightarrow> goint \<Rightarrow> 64 word \<Rightarrow> fault + byte list" where
  "PutUint64 b off v =
     (if \<not> sliceOK b off then Inl SliceBoundsOutOfRange
      else if length b - unat off < 8 then Inl IndexOutOfRange
      else Inr (overwrite b (unat off) (le_bytes 8 v)))"

text \<open>\<^verbatim>\<open>binary.LittleEndian.Uint32(b)\<close>.\<close>

definition Uint32 :: "byte list \<Rightarrow> fault + uint32" where
  "Uint32 b =
     (if length b < 4 then Inl IndexOutOfRange
      else Inr (ucast (b ! 0) OR push_bit 8 (ucast (b ! 1)) OR push_bit 16 (ucast (b ! 2))
                OR push_bit 24 (ucast (b ! 3))))"

text \<open>
  \<^verbatim>\<open>copy(dst[off:], src)\<close> copies as many bytes as fit and never panics once the slice
  expression is in bounds.
\<close>

definition copyAt :: "byte list \<Rightarrow> goint \<Rightarrow> byte list \<Rightarrow> fault + byte list" where
  "copyAt dst off src =
     (if \<not> sliceOK dst off then Inl SliceBoundsOutOfRange
      else Inr (overwrite dst (unat off) (take (length dst - unat off) src)))"

text \<open>
  \<^verbatim>\<open>PtrSize = 4 << (^uintptr(0) >> 63)\<close>, and the store
  \<^verbatim>\<open>*(*uintptr)(unsafe.Pointer(&(b[off:][0]))) = v\<close>: the slice expression and the
  index \<^verbatim>\<open>[0]\<close> are checked, the \<^verbatim>\<open>PtrSize\<close> bytes written are not.
\<close>

definition PtrSize :: goint where
  "PtrSize = push_bit (unat (drop_bit 63 (NOT 0 :: uintptr))) 4"

definition storeUintptr :: "byte list \<Rightarrow> goint \<Rightarrow> uintptr \<Rightarrow> fault + byte list" where
  "storeUintptr b off v =
     (if \<not> sliceOK b off then Inl SliceBoundsOutOfRange
      else if length b - unat off < 1 then Inl IndexOutOfRange
      else if length b - unat off < unat PtrSize then Inl UnsafeWriteOutOfBounds
      else Inr (overwrite b (unat off) (le_bytes (unat PtrSize) v)))"

text \<open>
  The three stores \<^verbatim>\<open>b := code[off:]; b[0] = byte(v); b[1] = byte(v >> 8);
  b[2] = byte(v >> 16)\<close> of the ARM branch immediates.
\<close>

definition put3 :: "byte list \<Rightarrow> goint \<Rightarrow> uint32 \<Rightarrow> fault + byte list" where
  "put3 b off v =
     (if \<not> sliceOK b off then Inl SliceBoundsOutOfRange
      else if length b - unat off < 3 then Inl IndexOutOfRange
      else Inr (overwrite b (unat off) (le_bytes 3 v)))"

text \<open>\<^verbatim>\<open>strings.HasPrefix\<close>, and \<^verbatim>\<open>strWrite\<close> on the diagnostic buffer.\<close>

definition HasPrefix :: "string \<Rightarrow> string \<Rightarrow> bool" where
  "HasPrefix s p \<longleftrightarrow> take (length p) s = p"

definition newline :: string where
  "newline = [CHR 0x0A]"

definition strWrite :: "string \<Rightarrow> string list \<Rightarrow> string" where
  "strWrite buf strs = buf @ concat (map (\<lambda>s. if s \<noteq> newline then s @ '' '' else s) strs)"

text \<open>\<^verbatim>\<open>strconv.Itoa\<close>.\<close>

fun digits :: "nat \<Rightarrow> string" where
  "digits n = (if n < 10 then [char_of (48 + n)] else digits (n div 10) @ [char_of (48 + n mod 10)])"

declare digits.simps [simp del]

definition Itoa :: "goint \<Rightarrow> string" where
  "Itoa i = (if i <s 0 then ''-'' @ digits (nat (- sint i)) else digits (nat (sint i)))"

subsection \<open>Constants\<close>

definition R_TLS_LE :: goint where "R_TLS_LE = 16"
definition R_CALL :: goint where "R_CALL = 8"
definition R_CALLARM :: goint where "R_CALLARM = 9"
definition R_CALLARM64 :: goint where "R_CALLARM64 = 10"
definition R_CALLIND :: goint where "R_CALLIND = 11"
definition R_PCREL :: goint where "R_PCREL = 15"
definition R_ADDR :: goint where "R_ADDR = 1"
definition R_ADDRARM64 :: goint where "R_ADDRARM64 = 3"
definition R_ADDROFF :: goint where "R_ADDROFF = 5"
definition R_WEAKADDROFF :: goint where "R_WEAKADDROFF = 6"
definition R_METHODOFF :: goint where "R_METHODOFF = 24"

definition STEXT :: goint where "STEXT = 1"
definition SRODATA :: goint where "SRODATA = 2"

definition mov32bit :: "byte list" where
  "mov32bit = [0x00, 0x00, 0x80, 0xD2, 0x00, 0x00, 0xA0, 0xF2]"
definition armcode :: "byte list" where
  "armcode = [0x04, 0xF0, 0x1F, 0xE5, 0x00, 0x00, 0x00, 0x00]"
definition arm64code :: "byte list" where
  "arm64code = [0x43, 0x00, 0x00, 0x58, 0x60, 0x00, 0x1F, 0xD6,
                0x00, 0x00, 0x00, 0x00, 0x00, 0x00, 0x00, 0x00]"
definition x86code :: "byte list" where
  "x86code = [0xff, 0x25, 0x00, 0x00, 0x00, 0x00, 0x00, 0x00,
              0x00, 0x00, 0x00, 0x00, 0x00, 0x00]"
definition movcode :: byte where "movcode = 0x8b"
definition leacode :: byte where "leacode = 0x8d"
definition cmplcode :: byte where "cmplcode = 0x83"
definition jmpcode :: byte where "jmpcode = 0xe9"

subsection \<open>The data model\<close>

record Reloc =
  RelocOffset :: goint
  SymOff :: goint
  Size :: goint
  Type :: goint
  Add :: goint

record SymData =
  Name :: string
  Kind :: goint
  Offset :: goint
  Reloc :: "Reloc list"

record functab =
  entry :: uintptr
  funcoff :: uintptr

text \<open>
  \<^verbatim>\<open>funcInfoData\<close> embeds the runtime's \<^verbatim>\<open>_func\<close>, whose declaration is not part
  of the source file; the record holds the fields the source reads (\<^verbatim>\<open>npcdata\<close>,
  \<^verbatim>\<open>nfuncdata\<close>) and the two slices.
\<close>

record funcInfoData =
  npcdata :: int32
  nfuncdata :: int32
  pcdata :: "uint32 list"
  funcdata :: "uintptr list"

record findfuncbucket =
  idx :: uint32
  subbuckets :: "byte list"

record Module =
  pclntable :: "byte list"
  pcfunc :: "findfuncbucket list"
  funcinfo :: "funcInfoData list"
  ftab :: "functab list"
  filetab :: "uint32 list"
  stkmaps :: "byte list list"

record CodeReloc =
  Code :: "byte list"
  Data :: "byte list"
  Mod :: Module
  Syms :: "SymData list"

record itabSym =
  ptr :: goint
  inter :: goint
  type' :: goint

record itabReloc =
  locOff :: goint
  symOff :: goint
  size' :: goint
  locType :: goint
  add :: goint

text \<open>
  \<^verbatim>\<open>CodeModule\<close>. Its field \<^verbatim>\<open>Syms\<close> is \<open>cmSyms\<close> here (the name is taken by
  \<^verbatim>\<open>CodeReloc\<close>); \<open>Module\<close> is the registry handle, \<open>None\<close> while unset;
  \<open>CodeBytePtr\<close> is the address of the first byte of the slice \<^verbatim>\<open>CodeByte\<close>.
\<close>

record CodeModule =
  cmSyms :: "string \<rightharpoonup> uintptr"
  CodeByte :: "byte list"
  CodeBytePtr :: uintptr
  Module :: "addr option"
  pcfuncdata :: "findfuncbucket list"
  cmStkmaps :: "byte list list"
  itabs :: "itabReloc list"
  itabSyms :: "itabSym list"
  typemap :: "int32 \<rightharpoonup> uintptr"

text \<open>
  \<^verbatim>\<open>segment\<close>. A Go slice is a pointer with a length: \<open>codeByte\<close> is the contents of
  \<^verbatim>\<open>seg.codeByte\<close> and \<open>codeBytePtr\<close> the address of its first byte (the
  \<^verbatim>\<open>Data\<close> word of its slice header). \<^verbatim>\<open>funcType\<close> maps a name to
  \<^verbatim>\<open>&seg.symAddrs[i]\<close>, kept as the index \<open>i\<close>. \<open>err\<close> is the text in the
  \<^verbatim>\<open>bytes.Buffer\<close>.
\<close>

record segment =
  codeBase :: goint
  dataBase :: goint
  codeLen :: goint
  maxCodeLen :: goint
  offset :: goint
  symAddrs :: "goint list"
  itabMap :: "string \<rightharpoonup> goint"
  funcType :: "string \<rightharpoonup> nat"
  codeByte :: "byte list"
  codeBytePtr :: uintptr
  typeSymPtr :: "string \<rightharpoonup> uintptr"
  err :: string

subsection \<open>What the loader takes from its host\<close>

text \<open>
  The source file calls into code that is not part of it: the names \<^verbatim>\<open>TLSNAME\<close> and
  \<^verbatim>\<open>R_CALLIND_NAME\<close>, the allocator \<^verbatim>\<open>Mmap\<close>, \<^verbatim>\<open>RegTLS\<close>,
  \<^verbatim>\<open>getitab\<close>, \<^verbatim>\<open>addIFaceSubFuncType\<close>, \<^verbatim>\<open>readFuncData\<close>, the size
  \<^verbatim>\<open>_funcSize\<close>, and the addresses at which the Go runtime places the objects whose
  address the loader takes. They are parameters, collected in one record.
  \<^item> \<open>Mmap n\<close> is an error text or the mapped bytes with the address of the first.
  \<^item> \<open>RegTLS\<close> gets the map \<^verbatim>\<open>symPtr\<close> (a reference in Go) and returns it updated.
  \<^item> \<open>addIFaceSubFuncType\<close> gets the maps \<^verbatim>\<open>funcType\<close> and \<^verbatim>\<open>typemap\<close> and,
    through the pointers held in \<^verbatim>\<open>funcType\<close>, the array \<^verbatim>\<open>symAddrs\<close>.
  \<^item> \<open>readFuncData\<close> gets \<^verbatim>\<open>reloc.Mod\<close> and the two maps it is handed.
  \<^item> \<open>mapOrder\<close> is the order in which \<^verbatim>\<open>range\<close> visits the keys of a map, which
    Go leaves open.
\<close>

record objReloc =
  oOffset :: goint
  oSize :: goint
  oSymName :: string
  oAdd :: goint
  oType :: goint

text \<open>
  A symbol as the object parser hands it over (\<^verbatim>\<open>goobj.Sym\<close> with its file):
  \<open>oPayload\<close> is what \<^verbatim>\<open>Seek\<close> and \<^verbatim>\<open>Read\<close> deliver for the symbol's data,
  \<open>None\<close> when \<^verbatim>\<open>Read\<close> reports an error.
\<close>

record objSym =
  oName :: string
  oKind :: goint
  oDupOK :: bool
  oPayload :: "byte list option"
  oReloc :: "objReloc list"

record host =
  TLSNAME :: string
  R_CALLIND_NAME :: string
  Mmap :: "goint \<Rightarrow> string + (byte list \<times> uintptr)"
  RegTLS :: "(string \<rightharpoonup> uintptr) \<Rightarrow> goint \<Rightarrow> (string \<rightharpoonup> uintptr)"
  getitab :: "goint \<Rightarrow> goint \<Rightarrow> goint"
  addIFaceSubFuncType ::
    "(string \<rightharpoonup> nat) \<times> (int32 \<rightharpoonup> uintptr) \<times> goint list \<Rightarrow> goint \<Rightarrow> goint
       \<Rightarrow> (string \<rightharpoonup> nat) \<times> (int32 \<rightharpoonup> uintptr) \<times> goint list"
  readFuncData ::
    "Module \<times> (string \<rightharpoonup> uintptr) \<times> (string \<rightharpoonup> goint) \<Rightarrow> objSym
       \<Rightarrow> (string \<rightharpoonup> objSym) \<Rightarrow> goint \<Rightarrow> goint
       \<Rightarrow> Module \<times> (string \<rightharpoonup> uintptr) \<times> (string \<rightharpoonup> goint)"
  funcSize :: goint
  pclntableAddr :: uintptr
  pcfuncAddr :: uintptr
  moduleAddr :: addr
  mapOrder :: "(string \<rightharpoonup> goint) \<Rightarrow> string list"

subsection \<open>The symbol table builder\<close>

text \<open>
  \<^verbatim>\<open>addSym(symMap, symArray, rsym)\<close>: the map, the array and the index it returns.
\<close>

definition addSym :: "(string \<rightharpoonup> goint) \<Rightarrow> SymData list \<Rightarrow> SymData
    \<Rightarrow> fault + ((string \<rightharpoonup> goint) \<times> SymData list \<times> goint)" where
  "addSym symMap symArray rsym =
     (case symMap (Name rsym) of
        None \<Rightarrow>
          Inr (symMap(Name rsym \<mapsto> len symArray), symArray @ [rsym], len symArray)
      | Some off \<Rightarrow>
          bindE (setIndex symArray off rsym) (\<lambda>arr. Inr (symMap, arr, off)))"

text \<open>
  What \<^verbatim>\<open>relocSym\<close> threads through its calls: the image under construction, the
  interning map, and the two maps it only hands on to \<^verbatim>\<open>readFuncData\<close>.
\<close>

record bstate =
  reloc :: CodeReloc
  symMap :: "string \<rightharpoonup> goint"
  gcObjs :: "string \<rightharpoonup> uintptr"
  fileTabOffsetMap :: "string \<rightharpoonup> goint"

text \<open>\<^verbatim>\<open>strings.TrimLeft\<close> and \<^verbatim>\<open>strings.Trim\<close> with a cutset of ASCII characters.\<close>

definition TrimLeft :: "string \<Rightarrow> string \<Rightarrow> string" where
  "TrimLeft s cutset = dropWhile (\<lambda>c. c \<in> set cutset) s"

definition Trim :: "string \<Rightarrow> string \<Rightarrow> string" where
  "Trim s cutset = rev (dropWhile (\<lambda>c. c \<in> set cutset) (rev (dropWhile (\<lambda>c. c \<in> set cutset) s)))"

text \<open>
  The start of \<^verbatim>\<open>relocSym\<close> for a name not yet interned (lines 286 to 305): the
  record is entered, the payload read and appended to its blob, the record entered again
  with its offset. The result is the state, \<^verbatim>\<open>rsym\<close> and \<^verbatim>\<open>curSymOffset\<close>.
\<close>

definition relocSymHead :: "host \<Rightarrow> (string \<rightharpoonup> objSym) \<Rightarrow> objSym \<Rightarrow> bstate
    \<Rightarrow> fault + (bstate \<times> SymData \<times> goint)" where
  "relocSymHead H allSyms curSym st =
     (let rsym = \<lparr>Name = oName curSym, Kind = oKind curSym, Offset = 0, Reloc = []\<rparr> in
      bindE (addSym (symMap st) (Syms (reloc st)) rsym) (\<lambda>(sm1, syms1, curSymOffset).
      bindE (case oPayload curSym of None \<Rightarrow> Inl ReadError | Some c \<Rightarrow> Inr c) (\<lambda>code.
        let st1 = st\<lparr>symMap := sm1, reloc := (reloc st)\<lparr>Syms := syms1\<rparr>\<rparr>;
            rsym' = (if oKind curSym = STEXT
                     then rsym\<lparr>Offset := len (Code (reloc st1))\<rparr>
                     else rsym\<lparr>Offset := len (Data (reloc st1))\<rparr>);
            st2 = (if oKind curSym = STEXT
                   then (case readFuncData H
                                (Mod (reloc st1), gcObjs st1, fileTabOffsetMap st1)
                                curSym allSyms curSymOffset (Offset rsym') of
                           (md, gc, ft) \<Rightarrow>
                             st1\<lparr>reloc := (reloc st1)\<lparr>Code := Code (reloc st1) @ code, Mod := md\<rparr>,
                                 gcObjs := gc, fileTabOffsetMap := ft\<rparr>)
                   else st1\<lparr>reloc := (reloc st1)\<lparr>Data := Data (reloc st1) @ code\<rparr>\<rparr>)
        in bindE (addSym (symMap st2) (Syms (reloc st2)) rsym') (\<lambda>(sm3, syms3, _).
             Inr (st2\<lparr>symMap := sm3, reloc := (reloc st2)\<lparr>Syms := syms3\<rparr>\<rparr>, rsym', curSymOffset)))))"

text \<open>
  A relocation whose target is in no compilation unit (lines 313 to 332): the record
  synthesized for it is interned, and its index returned.
\<close>

definition exSymOf :: "host \<Rightarrow> objReloc \<Rightarrow> SymData" where
  "exSymOf H re =
     (let ex0 = \<lparr>Name = oSymName re, Kind = 0, Offset = - 1, Reloc = []\<rparr>;
          ex1 = (if oType re = R_TLS_LE
                 then ex0\<lparr>Name := TLSNAME H, Offset := oOffset re\<rparr> else ex0)
      in if oType re = R_CALLIND then ex1\<lparr>Offset := 0, Name := R_CALLIND_NAME H\<rparr> else ex1)"

definition externSym :: "host \<Rightarrow> objReloc \<Rightarrow> bstate \<Rightarrow> fault + (bstate \<times> goint)" where
  "externSym H re st =
     (let ex = exSymOf H re;
          importpath = HasPrefix (Name ex) ''type..importpath.'';
          pathb = map of_char (Trim (TrimLeft (Name ex) ''type..importpath.'') ''.'') @ [0];
          ex' = (if importpath then ex\<lparr>Offset := len (Data (reloc st))\<rparr> else ex);
          st1 = (if importpath
                 then st\<lparr>reloc := (reloc st)\<lparr>Data := Data (reloc st) @ pathb\<rparr>\<rparr> else st)
      in bindE (addSym (symMap st1) (Syms (reloc st1)) ex') (\<lambda>(sm, syms, off).
           Inr (st1\<lparr>symMap := sm, reloc := (reloc st1)\<lparr>Syms := syms\<rparr>\<rparr>, off)))"

text \<open>The relocation entry appended to \<^verbatim>\<open>rsym.Reloc\<close>.\<close>

definition mkReloc :: "objReloc \<Rightarrow> SymData \<Rightarrow> goint \<Rightarrow> Reloc" where
  "mkReloc re rsym symOff' =
     \<lparr>RelocOffset = oOffset re + Offset rsym, SymOff = symOff', Size = oSize re,
      Type = oType re, Add = oAdd re\<rparr>"

text \<open>The end of \<^verbatim>\<open>relocSym\<close>: \<^verbatim>\<open>reloc.Syms[curSymOffset].Reloc = rsym.Reloc\<close>.\<close>

definition relocSymTail :: "bstate \<Rightarrow> SymData \<Rightarrow> goint \<Rightarrow> fault + (bstate \<times> goint)" where
  "relocSymTail st rsym curSymOffset =
     bindE (index (Syms (reloc st)) curSymOffset) (\<lambda>old.
     bindE (setIndex (Syms (reloc st)) curSymOffset (old\<lparr>Reloc := Reloc rsym\<rparr>)) (\<lambda>syms.
       Inr (st\<lparr>reloc := (reloc st)\<lparr>Syms := syms\<rparr>\<rparr>, curSymOffset)))"

text \<open>
  \<^verbatim>\<open>relocSym\<close> calls itself for every relocation target found in \<open>allSyms\<close>. The
  first argument bounds the depth of these calls; \<open>None\<close> means the bound was reached.
  \<open>relocLoop\<close> is the loop over \<^verbatim>\<open>curSym.sym.Reloc\<close>.
\<close>

fun relocSym :: "nat \<Rightarrow> host \<Rightarrow> (string \<rightharpoonup> objSym) \<Rightarrow> objSym \<Rightarrow> bstate
      \<Rightarrow> (fault + (bstate \<times> goint)) option"
  and relocLoop :: "nat \<Rightarrow> host \<Rightarrow> (string \<rightharpoonup> objSym) \<Rightarrow> objReloc list \<Rightarrow> bstate \<times> SymData
      \<Rightarrow> (fault + (bstate \<times> SymData)) option" where
  "relocSym 0 H allSyms curSym st = None"
| "relocSym (Suc n) H allSyms curSym st =
     (case symMap st (oName curSym) of
        Some curSymOffset \<Rightarrow> Some (Inr (st, curSymOffset))
      | None \<Rightarrow>
          (case relocSymHead H allSyms curSym st of
             Inl e \<Rightarrow> Some (Inl e)
           | Inr (st2, rsym, curSymOffset) \<Rightarrow>
               (case relocLoop n H allSyms (oReloc curSym) (st2, rsym) of
                  None \<Rightarrow> None
                | Some (Inl e) \<Rightarrow> Some (Inl e)
                | Some (Inr (st3, rsym')) \<Rightarrow> Some (relocSymTail st3 rsym' curSymOffset))))"
| "relocLoop n H allSyms [] sr = Some (Inr sr)"
| "relocLoop n H allSyms (re # res) sr =
     (case (case allSyms (oSymName re) of
              Some s \<Rightarrow> relocSym n H allSyms s (fst sr)
            | None \<Rightarrow> Some (externSym H re (fst sr))) of
        None \<Rightarrow> None
      | Some (Inl e) \<Rightarrow> Some (Inl e)
      | Some (Inr (st', symOff')) \<Rightarrow>
          relocLoop n H allSyms res
            (st', (snd sr)\<lparr>Reloc := Reloc (snd sr) @ [mkReloc re (snd sr) symOff']\<rparr>))"

text \<open>
  \<^verbatim>\<open>ReadObj\<close> after the parser has delivered \<^verbatim>\<open>obj.Syms\<close>: the map of all
  symbols (a later symbol of the same name replaces an earlier one) and the roots.
\<close>

definition symsMap :: "objSym list \<Rightarrow> (string \<rightharpoonup> objSym)" where
  "symsMap syms = foldl (\<lambda>m s. m(oName s \<mapsto> s)) Map.empty syms"

definition isRoot :: "objSym \<Rightarrow> bool" where
  "isRoot s \<longleftrightarrow>
     (if oKind s = STEXT \<and> oDupOK s = False then True
      else if oKind s = SRODATA then HasPrefix (oName s) ''type.''
      else False)"

fun readRoots :: "nat \<Rightarrow> host \<Rightarrow> (string \<rightharpoonup> objSym) \<Rightarrow> objSym list \<Rightarrow> bstate
    \<Rightarrow> (fault + bstate) option" where
  "readRoots n H allSyms [] st = Some (Inr st)"
| "readRoots n H allSyms (s # ss) st =
     (if isRoot s then
        (case relocSym n H allSyms s st of
           None \<Rightarrow> None
         | Some (Inl e) \<Rightarrow> Some (Inl e)
         | Some (Inr (st', _)) \<Rightarrow> readRoots n H allSyms ss st')
      else readRoots n H allSyms ss st)"

definition emptyModule :: Module where
  "emptyModule = \<lparr>pclntable = [], pcfunc = [], funcinfo = [], ftab = [], filetab = [], stkmaps = []\<rparr>"

definition emptyBuild :: bstate where
  "emptyBuild = \<lparr>reloc = \<lparr>Code = [], Data = [], Mod = emptyModule, Syms = []\<rparr>,
                 symMap = Map.empty, gcObjs = Map.empty, fileTabOffsetMap = Map.empty\<rparr>"

definition ReadObj :: "nat \<Rightarrow> host \<Rightarrow> objSym list \<Rightarrow> (fault + CodeReloc) option" where
  "ReadObj n H syms =
     (case readRoots n H (symsMap syms) syms emptyBuild of
        None \<Rightarrow> None
      | Some (Inl e) \<Rightarrow> Some (Inl e)
      | Some (Inr st) \<Rightarrow> Some (Inr (reloc st)))"

subsection \<open>relocADRP\<close>

text \<open>
  \<^verbatim>\<open>relocADRP(mCode, pc, symAddr, symName)\<close> patches the two instructions at the start
  of \<open>mCode\<close> and returns the patched bytes (the Go slice aliases the blob it was cut
  from; the caller puts the bytes back). \<^verbatim>\<open>symName\<close> and the \<^verbatim>\<open>fmt.Println\<close>
  only print.
\<close>

definition relocADRP :: "byte list \<Rightarrow> goint \<Rightarrow> goint \<Rightarrow> fault + byte list" where
  "relocADRP mCode pc symAddr =
     (let pcPage = pc - (pc AND 0xfff);
          lowOff = symAddr AND 0xfff;
          symPage = symAddr - lowOff;
          pageOff = symPage - pcPage
      in if 0x7FFFFFFF <s pageOff \<or> pageOff <s (- 0x80000000) then
           bindE (Uint32 (take 4 mov32bit)) (\<lambda>movlow.
           bindE (Uint32 (drop 4 mov32bit)) (\<lambda>movhigh.
           bindE (Uint32 mCode) (\<lambda>adrp.
             let symAddrUint32 = (ucast symAddr :: uint32);
                 movlow' = ((adrp AND 0x1f) OR movlow) OR push_bit 5 (symAddrUint32 AND 0xffff);
                 movhigh' = ((adrp AND 0x1f) OR movhigh)
                              OR push_bit 5 (drop_bit 16 (symAddrUint32 AND 0xffff0000))
             in bindE (PutUint32 mCode 0 movlow') (\<lambda>m. PutUint32 m 4 movhigh'))))
         else
           (let pageAnd = push_bit 29 (ucast (signed_drop_bit 12 pageOff AND 3) :: uint32)
                            OR push_bit 5 (ucast (signed_drop_bit 15 pageOff AND 0x7ffff))
            in bindE (Uint32 mCode) (\<lambda>adrp.
               bindE (PutUint32 mCode 0 (adrp OR pageAnd)) (\<lambda>m.
               bindE (Uint32 (drop 4 m)) (\<lambda>adrpAdd.
                 PutUint32 m 4 (adrpAdd OR ucast (push_bit 10 lowOff)))))))"

text \<open>The signed page delta \<^verbatim>\<open>pageOff\<close> that \<^verbatim>\<open>relocADRP\<close> computes.\<close>

definition pageDelta :: "goint \<Rightarrow> goint \<Rightarrow> goint" where
  "pageDelta pc symAddr = (symAddr - (symAddr AND 0xfff)) - (pc - (pc AND 0xfff))"

text \<open>\<^verbatim>\<open>relocADRP(buf[off:], pc, symAddr, name)\<close> on a blob \<open>buf\<close>.\<close>

definition relocADRPAt :: "byte list \<Rightarrow> goint \<Rightarrow> goint \<Rightarrow> goint \<Rightarrow> fault + byte list" where
  "relocADRPAt buf off pc symAddr =
     (if \<not> sliceOK buf off then Inl SliceBoundsOutOfRange
      else bindE (relocADRP (drop (unat off) buf) pc symAddr)
             (\<lambda>m. Inr (take (unat off) buf @ m)))"

subsection \<open>relocate\<close>

text \<open>
  The blob a relocation of \<open>curSym\<close> is written to (\<^verbatim>\<open>relocByte\<close>) and the base its
  site offset counts from (\<^verbatim>\<open>addrBase\<close>): code for a text symbol, data otherwise.
\<close>

definition relocByteOf :: "SymData \<Rightarrow> CodeReloc \<Rightarrow> byte list" where
  "relocByteOf curSym code = (if Kind curSym = STEXT then Code code else Data code)"

definition setRelocByte :: "SymData \<Rightarrow> CodeReloc \<Rightarrow> byte list \<Rightarrow> CodeReloc" where
  "setRelocByte curSym code b =
     (if Kind curSym = STEXT then code\<lparr>Code := b\<rparr> else code\<lparr>Data := b\<rparr>)"

definition addrBaseOf :: "SymData \<Rightarrow> segment \<Rightarrow> goint" where
  "addrBaseOf curSym seg = (if Kind curSym = STEXT then codeBase seg else dataBase seg)"

text \<open>
  The displacement of an \<^verbatim>\<open>R_CALL\<close> or \<^verbatim>\<open>R_PCREL\<close> site and the test that sends
  it to the trampoline path (line 495 of the source).
\<close>

definition pcrelDisp :: "SymData \<Rightarrow> Reloc \<Rightarrow> goint \<Rightarrow> segment \<Rightarrow> goint" where
  "pcrelDisp curSym loc sa seg =
     sa - (addrBaseOf curSym seg + RelocOffset loc + Size loc) + Add loc"

definition pcrelOverflow :: "goint \<Rightarrow> bool" where
  "pcrelOverflow off \<longleftrightarrow> 0x7fffffff <s off \<or> off <s (- 0x8000000)"

text \<open>\<^verbatim>\<open>rb := relocByte[loc.Offset-2:]\<close> starts at position \<open>start\<close>; this is \<^verbatim>\<open>rb[k]\<close>.\<close>

definition rbAt :: "byte list \<Rightarrow> nat \<Rightarrow> nat \<Rightarrow> fault + byte" where
  "rbAt relocByte start k =
     (if start + k < length relocByte then Inr (relocByte ! (start + k)) else Inl IndexOutOfRange)"

text \<open>The stub of an overflowing \<^verbatim>\<open>R_CALL\<close> site.\<close>

definition callStub :: "SymData \<Rightarrow> Reloc \<Rightarrow> goint \<Rightarrow> CodeReloc \<times> segment \<Rightarrow> fault + (CodeReloc \<times> segment)" where
  "callStub curSym loc sa cs =
     (case cs of (code, seg) \<Rightarrow>
        let off = (codeBase seg + offset seg)
                   - (addrBaseOf curSym seg + RelocOffset loc + Size loc)
        in bindE (copyAt (codeByte seg) (offset seg) x86code) (\<lambda>cb.
           bindE (PutUint32 (relocByteOf curSym code) (RelocOffset loc) (ucast off)) (\<lambda>rb'.
           bindE (if 0xFFFFFFFF < sa + Add loc
                  then PutUint64 cb (offset seg + 6) (sa + Add loc)
                  else PutUint32 cb (offset seg + 6) (ucast (sa + Add loc))) (\<lambda>cb'.
           Inr (setRelocByte curSym code rb',
                seg\<lparr>codeByte := cb', offset := offset seg + len x86code\<rparr>)))))"

text \<open>The literal of an overflowing \<^verbatim>\<open>R_PCREL\<close> site with a recognised opcode.\<close>

definition dataStub :: "SymData \<Rightarrow> Reloc \<Rightarrow> goint \<Rightarrow> nat \<Rightarrow> byte \<Rightarrow> CodeReloc \<times> segment \<Rightarrow> fault + (CodeReloc \<times> segment)" where
  "dataStub curSym loc sa start r0 cs =
     (case cs of (code, seg) \<Rightarrow>
        let off = (codeBase seg + offset seg)
                   - (addrBaseOf curSym seg + RelocOffset loc + Size loc)
        in bindE (PutUint32 (relocByteOf curSym code) (RelocOffset loc) (ucast off)) (\<lambda>rb1.
           let rb' = (if r0 = leacode then rb1[start := movcode] else rb1);
               code' = setRelocByte curSym code rb'
           in if 0xFFFFFFFF < sa + Add loc
              then bindE (PutUint64 (codeByte seg) (offset seg) (sa + Add loc)) (\<lambda>cb'.
                     Inr (code', seg\<lparr>codeByte := cb', offset := offset seg + 12\<rparr>))
              else bindE (PutUint32 (codeByte seg) (offset seg) (ucast (sa + Add loc))) (\<lambda>cb'.
                     Inr (code', seg\<lparr>codeByte := cb', offset := offset seg + 8\<rparr>))))"

text \<open>An overflowing site whose opcode is not recognised: a diagnostic, and the site written anyway.\<close>

definition unknownOpcode :: "SymData \<Rightarrow> SymData \<Rightarrow> Reloc \<Rightarrow> goint \<Rightarrow> CodeReloc \<times> segment \<Rightarrow> fault + (CodeReloc \<times> segment)" where
  "unknownOpcode curSym tsym loc off cs =
     (case cs of (code, seg) \<Rightarrow>
        bindE (PutUint32 (relocByteOf curSym code) (RelocOffset loc) (ucast off)) (\<lambda>rb'.
          Inr (setRelocByte curSym code rb',
               seg\<lparr>err := strWrite (err seg) [''offset overflow sym:'', Name tsym, newline]\<rparr>)))"

text \<open>\<^verbatim>\<open>case R_CALL, R_PCREL\<close>.\<close>

definition relocCallPcrel :: "SymData \<Rightarrow> SymData \<Rightarrow> Reloc \<Rightarrow> goint \<Rightarrow> CodeReloc \<times> segment \<Rightarrow> fault + (CodeReloc \<times> segment)" where
  "relocCallPcrel curSym tsym loc sa cs =
     (case cs of (code, seg) \<Rightarrow>
        let relocByte = relocByteOf curSym code;
            off = pcrelDisp curSym loc sa seg
        in if pcrelOverflow off then
             if maxCodeLen seg <s offset seg + 8 then
               Inr (code, seg\<lparr>err := strWrite (err seg) [''len overflow'', ''sym:'', Name tsym, newline]\<rparr>)
             else if \<not> sliceOK relocByte (RelocOffset loc - 2) then Inl SliceBoundsOutOfRange
             else if Type loc = R_CALL then callStub curSym loc sa cs
             else
               (let start = unat (RelocOffset loc - 2) in
                bindE (rbAt relocByte start 0) (\<lambda>r0.
                  if r0 = leacode \<or> r0 = movcode \<or> r0 = cmplcode
                  then dataStub curSym loc sa start r0 cs
                  else bindE (rbAt relocByte start 1) (\<lambda>r1.
                    if r1 = jmpcode then dataStub curSym loc sa start r0 cs
                    else unknownOpcode curSym tsym loc off cs)))
           else
             bindE (PutUint32 relocByte (RelocOffset loc) (ucast off)) (\<lambda>rb'.
               Inr (setRelocByte curSym code rb', seg)))"

text \<open>
  \<^verbatim>\<open>case R_CALLARM, R_CALLARM64\<close>: the addend and program-counter bias, the word
  displacement and its range test (line 544 of the source).
\<close>

definition armAdd :: "Reloc \<Rightarrow> goint" where
  "armAdd loc =
     (if Type loc = R_CALLARM
      then (let a = Add loc AND 0xffffff in if 256 <s a then 0 else a + 2)
      else Add loc)"

definition armPcOff :: "Reloc \<Rightarrow> goint" where
  "armPcOff loc = (if Type loc = R_CALLARM then 8 else 0)"

definition armDisp :: "Reloc \<Rightarrow> goint \<Rightarrow> segment \<Rightarrow> goint" where
  "armDisp loc sa seg =
     quo (sa - (codeBase seg + RelocOffset loc + armPcOff loc) + armAdd loc) 4"

definition armOverflow :: "goint \<Rightarrow> bool" where
  "armOverflow off \<longleftrightarrow> 0x7FFFFF <s off \<or> off <s (- 0x800000)"

definition armStub :: "Reloc \<Rightarrow> goint \<Rightarrow> CodeReloc \<times> segment \<Rightarrow> fault + (CodeReloc \<times> segment)" where
  "armStub loc sa cs =
     (case cs of (code, seg) \<Rightarrow>
        let align = rem (offset seg) 4;
            so = (if align \<noteq> 0 then offset seg + (4 - align) else offset seg);
            off = quo (so - (RelocOffset loc + armPcOff loc)) 4
        in bindE (put3 (Code code) (RelocOffset loc) (ucast off)) (\<lambda>c'.
           let jmp = (if Type loc = R_CALLARM64 then arm64code else armcode);
               jmpLocOff = (if Type loc = R_CALLARM64 then 8 else 4)
           in bindE (copyAt (codeByte seg) so jmp) (\<lambda>cb.
              bindE (storeUintptr cb (so + jmpLocOff) (sa + armAdd loc * 4)) (\<lambda>cb'.
              Inr (code\<lparr>Code := c'\<rparr>, seg\<lparr>codeByte := cb', offset := so + len jmp\<rparr>)))))"

definition relocCallArm :: "SymData \<Rightarrow> Reloc \<Rightarrow> goint \<Rightarrow> CodeReloc \<times> segment \<Rightarrow> fault + (CodeReloc \<times> segment)" where
  "relocCallArm tsym loc sa cs =
     (case cs of (code, seg) \<Rightarrow>
        let off = armDisp loc sa seg
        in if armOverflow off then
             if maxCodeLen seg <s offset seg + 4 then
               Inr (code, seg\<lparr>err := strWrite (err seg) [''len overflow'', ''sym:'', Name tsym, newline]\<rparr>)
             else armStub loc sa cs
           else
             bindE (put3 (Code code) (RelocOffset loc) (ucast off)) (\<lambda>c'.
               Inr (code\<lparr>Code := c'\<rparr>, seg)))"

text \<open>The remaining cases of the switch.\<close>

definition relocTLS :: "host \<Rightarrow> (string \<rightharpoonup> uintptr) \<Rightarrow> Reloc \<Rightarrow> CodeReloc \<times> segment \<Rightarrow> fault + (CodeReloc \<times> segment)" where
  "relocTLS H symPtr loc cs =
     (case cs of (code, seg) \<Rightarrow>
        let tls = (case symPtr (TLSNAME H) of None \<Rightarrow> 0 | Some p \<Rightarrow> p)
        in bindE (PutUint32 (Code code) (RelocOffset loc) (ucast tls)) (\<lambda>c'.
             Inr (code\<lparr>Code := c'\<rparr>, seg)))"

definition relocAddrArm64 :: "SymData \<Rightarrow> Reloc \<Rightarrow> goint \<Rightarrow> CodeReloc \<times> segment \<Rightarrow> fault + (CodeReloc \<times> segment)" where
  "relocAddrArm64 curSym loc sa cs =
     (case cs of (code, seg) \<Rightarrow>
        let seg' = (if Kind curSym \<noteq> STEXT
                    then seg\<lparr>err := strWrite (err seg) [''not in code?'' @ newline]\<rparr> else seg)
        in bindE (relocADRPAt (Code code) (RelocOffset loc) (codeBase seg + RelocOffset loc) sa)
             (\<lambda>c'. Inr (code\<lparr>Code := c'\<rparr>, seg')))"

definition relocAddr :: "SymData \<Rightarrow> Reloc \<Rightarrow> goint \<Rightarrow> CodeReloc \<times> segment \<Rightarrow> fault + (CodeReloc \<times> segment)" where
  "relocAddr curSym loc sa cs =
     (case cs of (code, seg) \<Rightarrow>
        bindE (storeUintptr (relocByteOf curSym code) (RelocOffset loc) (sa + Add loc)) (\<lambda>rb'.
          Inr (setRelocByte curSym code rb', seg)))"

definition relocAddrOff :: "SymData \<Rightarrow> SymData \<Rightarrow> Reloc \<Rightarrow> goint \<Rightarrow> CodeReloc \<times> segment \<Rightarrow> fault + (CodeReloc \<times> segment)" where
  "relocAddrOff curSym tsym loc sa cs =
     (case cs of (code, seg) \<Rightarrow>
        let seg' = (if Kind curSym = STEXT
                    then seg\<lparr>err := strWrite (err seg)
                           [''impossible!'', Name tsym, ''locate on code segment'', newline]\<rparr>
                    else seg);
            off = sa - codeBase seg + Add loc
        in bindE (PutUint32 (Data code) (RelocOffset loc) (ucast off)) (\<lambda>d'.
             Inr (code\<lparr>Data := d'\<rparr>, seg')))"

definition relocUnknown :: "SymData \<Rightarrow> Reloc \<Rightarrow> CodeReloc \<times> segment \<Rightarrow> fault + (CodeReloc \<times> segment)" where
  "relocUnknown tsym loc cs =
     (case cs of (code, seg) \<Rightarrow>
        Inr (code, seg\<lparr>err := strWrite (err seg)
                     [''unknown reloc type:'', Itoa (Type loc), Name tsym, newline]\<rparr>))"

text \<open>The switch on \<^verbatim>\<open>loc.Type\<close>.\<close>

definition relocSwitch :: "host \<Rightarrow> (string \<rightharpoonup> uintptr) \<Rightarrow> SymData \<Rightarrow> SymData \<Rightarrow> Reloc \<Rightarrow> goint \<Rightarrow> CodeReloc \<times> segment \<Rightarrow> fault + (CodeReloc \<times> segment)" where
  "relocSwitch H symPtr curSym tsym loc sa cs =
     (if Type loc = R_TLS_LE then relocTLS H symPtr loc cs
      else if Type loc = R_CALL \<or> Type loc = R_PCREL then relocCallPcrel curSym tsym loc sa cs
      else if Type loc = R_CALLARM \<or> Type loc = R_CALLARM64 then relocCallArm tsym loc sa cs
      else if Type loc = R_ADDRARM64 then relocAddrArm64 curSym loc sa cs
      else if Type loc = R_ADDR then relocAddr curSym loc sa cs
      else if Type loc = R_CALLIND then Inr cs
      else if Type loc = R_ADDROFF \<or> Type loc = R_WEAKADDROFF \<or> Type loc = R_METHODOFF
        then relocAddrOff curSym tsym loc sa cs
      else relocUnknown tsym loc cs)"

text \<open>
  One pass of the inner loop body: the target's record and address, the two
  \<^verbatim>\<open>continue\<close>s (unresolved target; interface table still to be built, queued in
  \<^verbatim>\<open>codeModule.itabs\<close>), then the switch.
\<close>

definition relocOne :: "host \<Rightarrow> (string \<rightharpoonup> uintptr) \<Rightarrow> SymData \<Rightarrow> Reloc \<Rightarrow> CodeReloc \<times> CodeModule \<times> segment \<Rightarrow> fault + (CodeReloc \<times> CodeModule \<times> segment)" where
  "relocOne H symPtr curSym loc st =
     (case st of (code, cm, seg) \<Rightarrow>
        bindE (index (Syms code) (SymOff loc)) (\<lambda>tsym.
        bindE (index (symAddrs seg) (SymOff loc)) (\<lambda>sa.
          if sa = - 1 then Inr st
          else if sa = 0 \<and> HasPrefix (Name tsym) ''go.itab'' then
            Inr (code,
                 cm\<lparr>itabs := itabs cm @
                    [\<lparr>locOff = RelocOffset loc,
                      symOff = (case itabMap seg (Name tsym) of None \<Rightarrow> 0 | Some i \<Rightarrow> i),
                      size' = Size loc, locType = Type loc, add = Add loc\<rparr>]\<rparr>,
                 seg)
          else bindE (relocSwitch H symPtr curSym tsym loc sa (code, seg))
                 (\<lambda>(code', seg'). Inr (code', cm, seg')))))"

text \<open>A \<^verbatim>\<open>for ... range\<close> loop whose body may panic.\<close>

fun foldE :: "('a \<Rightarrow> 's \<Rightarrow> fault + 's) \<Rightarrow> 'a list \<Rightarrow> 's \<Rightarrow> fault + 's" where
  "foldE f [] s = Inr s"
| "foldE f (x # xs) s = bindE (f x s) (foldE f xs)"

definition relocate :: "host \<Rightarrow> (string \<rightharpoonup> uintptr) \<Rightarrow> CodeReloc \<times> CodeModule \<times> segment \<Rightarrow> fault + (CodeReloc \<times> CodeModule \<times> segment)" where
  "relocate H symPtr st =
     foldE (\<lambda>curSym. foldE (relocOne H symPtr curSym) (Reloc curSym)) (Syms (fst st)) st"



subsection \<open>addSymAddrs\<close>

text \<open>
  The body of the loop of \<^verbatim>\<open>addSymAddrs\<close> for the symbol \<open>tsym\<close> at index \<open>i\<close>.
  The state is what the loop can change: the map \<^verbatim>\<open>symPtr\<close> (through
  \<^verbatim>\<open>RegTLS\<close>), the module and the segment.
\<close>

definition addSymAddr :: "host \<Rightarrow> nat \<times> SymData \<Rightarrow> (string \<rightharpoonup> uintptr) \<times> CodeModule \<times> segment
    \<Rightarrow> fault + ((string \<rightharpoonup> uintptr) \<times> CodeModule \<times> segment)" where
  "addSymAddr H isym st =
     (case (isym, st) of ((i, tsym), (symPtr, cm, seg)) \<Rightarrow>
        if Offset tsym = - 1 then
          (case symPtr (Name tsym) of
             Some p \<Rightarrow>
               bindE (setAt (symAddrs seg) i p) (\<lambda>sa. Inr (symPtr, cm, seg\<lparr>symAddrs := sa\<rparr>))
           | None \<Rightarrow>
               bindE (setAt (symAddrs seg) i (- 1)) (\<lambda>sa.
                 Inr (symPtr, cm,
                      seg\<lparr>symAddrs := sa,
                          err := strWrite (err seg) [''unresolve external:'', Name tsym, newline]\<rparr>)))
        else if Name tsym = TLSNAME H then
          Inr (RegTLS H symPtr (Offset tsym), cm, seg)
        else if Kind tsym = STEXT then
          bindE (setAt (symAddrs seg) i (Offset tsym + codeBase seg)) (\<lambda>sa.
            Inr (symPtr,
                 cm\<lparr>cmSyms := (cmSyms cm)(Name tsym \<mapsto> Offset tsym + codeBase seg)\<rparr>,
                 seg\<lparr>symAddrs := sa\<rparr>))
        else if HasPrefix (Name tsym) ''go.itab'' then
          (case symPtr (Name tsym) of
             Some p \<Rightarrow>
               bindE (setAt (symAddrs seg) i p) (\<lambda>sa. Inr (symPtr, cm, seg\<lparr>symAddrs := sa\<rparr>))
           | None \<Rightarrow>
               Inr (symPtr, cm, seg\<lparr>itabMap := (itabMap seg)(Name tsym \<mapsto> of_nat i)\<rparr>))
        else
          bindE (setAt (symAddrs seg) i (Offset tsym + dataBase seg)) (\<lambda>sa.
            let seg1 = seg\<lparr>symAddrs := sa\<rparr>;
                seg2 = (if HasPrefix (Name tsym) ''type.func''
                        then seg1\<lparr>funcType := (funcType seg1)(Name tsym \<mapsto> i)\<rparr> else seg1)
            in if HasPrefix (Name tsym) ''type.'' then
                 (case symPtr (Name tsym) of
                    Some p \<Rightarrow> Inr (symPtr, cm, seg2\<lparr>symAddrs := sa[i := p]\<rparr>)
                  | None \<Rightarrow>
                      Inr (symPtr, cm,
                           seg2\<lparr>typeSymPtr := (typeSymPtr seg2)(Name tsym \<mapsto> sa ! i)\<rparr>))
               else Inr (symPtr, cm, seg2)))"

definition addSymAddrs :: "host \<Rightarrow> CodeReloc \<Rightarrow> (string \<rightharpoonup> uintptr) \<times> CodeModule \<times> segment
    \<Rightarrow> fault + ((string \<rightharpoonup> uintptr) \<times> CodeModule \<times> segment)" where
  "addSymAddrs H code st =
     foldE (addSymAddr H) (zip [0..<length (Syms code)] (Syms code)) st"

subsection \<open>addItab and relocateItab\<close>





subsection \<open>buildModule\<close>






text \<open>
  The loop \<^verbatim>\<open>for i := len(module.ftab) - 1; i > 0; i-- { module.ftab[i] = module.ftab[i-1] }\<close>,
  entered with \<open>i = len - 1\<close>.
\<close>

fun shiftUp :: "nat \<Rightarrow> functab list \<Rightarrow> functab list" where
  "shiftUp 0 ft = ft"
| "shiftUp (Suc i) ft = shiftUp i (ft[Suc i := ft ! i])"




subsection \<open>The module registry\<close>

text \<open>
  The host runtime's module list is a chain of \<^verbatim>\<open>moduledata\<close> nodes linked by
  their \<^verbatim>\<open>next\<close> field, starting at \<^verbatim>\<open>firstmoduledata\<close>. Nodes are
  identified by their address; \<open>nxt\<close> is the store of the \<^verbatim>\<open>next\<close> fields
  (\<open>None\<close> is the nil pointer) and \<open>modules\<close> is the key set of the package
  variable \<^verbatim>\<open>modules\<close>.
\<close>

record registry =
  modules :: "addr set"
  nxt :: "addr \<Rightarrow> addr option"

definition firstmoduledata :: addr where
  "firstmoduledata = 0"

text \<open>
  The loop of \<^verbatim>\<open>addModule\<close> walks to the node whose \<^verbatim>\<open>next\<close> is nil and
  links the new node there. On a cyclic chain the loop never ends: the value is \<open>None\<close>.
\<close>

partial_function (option) addModule_walk ::
  "(addr \<Rightarrow> addr option) \<Rightarrow> addr \<Rightarrow> addr \<Rightarrow> (addr \<Rightarrow> addr option) option" where
  "addModule_walk nx datap aModule =
     (case nx datap of
        None \<Rightarrow> Some (nx(datap := Some aModule))
      | Some n \<Rightarrow> addModule_walk nx n aModule)"

text \<open>
  \<^verbatim>\<open>addModule\<close> returns the registry and the handle stored in
  \<^verbatim>\<open>codeModule.Module\<close>.
\<close>

definition addModule :: "registry \<Rightarrow> addr \<Rightarrow> (registry \<times> addr option) option" where
  "addModule reg aModule =
     (case addModule_walk (nxt reg) firstmoduledata aModule of
        None \<Rightarrow> None
      | Some nx' \<Rightarrow> Some (\<lparr>modules = insert aModule (modules reg), nxt = nx'\<rparr>, Some aModule))"

text \<open>
  The loop of \<^verbatim>\<open>removeModule\<close>: \<open>prevp\<close> trails \<open>datap\<close>; at the node equal
  to the handle, \<^verbatim>\<open>prevp.next = datap.next\<close> and the loop breaks. The handle is an
  interface value: \<open>None\<close> stands for one that is no node's address.
\<close>

partial_function (option) removeModule_walk ::
  "(addr \<Rightarrow> addr option) \<Rightarrow> addr \<Rightarrow> addr option \<Rightarrow> addr option \<Rightarrow> (addr \<Rightarrow> addr option) option" where
  "removeModule_walk nx prevp datap module =
     (case datap of
        None \<Rightarrow> Some nx
      | Some d \<Rightarrow>
          if Some d = module then Some (nx(prevp := nx d))
          else removeModule_walk nx d (nx d) module)"

declare addModule_walk.simps [code]
declare removeModule_walk.simps [code]

definition removeModule :: "registry \<Rightarrow> addr option \<Rightarrow> registry option" where
  "removeModule reg module =
     (case removeModule_walk (nxt reg) firstmoduledata (Some firstmoduledata) module of
        None \<Rightarrow> None
      | Some nx' \<Rightarrow>
          Some \<lparr>modules = (case module of None \<Rightarrow> modules reg | Some m \<Rightarrow> modules reg - {m}),
                nxt = nx'\<rparr>)"

text \<open>
  A registry traversal: the nodes met from pointer \<open>p\<close> by following \<^verbatim>\<open>next\<close>
  until nil.
\<close>

fun traversal :: "(addr \<Rightarrow> addr option) \<Rightarrow> addr option \<Rightarrow> addr list \<Rightarrow> bool" where
  "traversal nx p [] = (p = None)"
| "traversal nx p (a # as) = (p = Some a \<and> traversal nx (nx a) as)"

text \<open>A registry holding \<^verbatim>\<open>firstmoduledata\<close> and one more published module.\<close>

definition reg0 :: registry where
  "reg0 = \<lparr>modules = {}, nxt = (\<lambda>_. None)(0 := Some 1)\<rparr>"

subsection \<open>The process around the loader\<close>

text \<open>
  What \<^verbatim>\<open>Load\<close> and \<^verbatim>\<open>Unload\<close> do to the process is the registry and the
  sequence of calls they make to the runtime, the lock and the allocator, kept in order
  of occurrence.
\<close>

datatype event =
    EvMmap goint
  | EvGC
  | EvLock
  | EvUnlock
  | EvAddModule addr
  | EvRemoveModule "addr option"
  | EvMunmap uintptr

record world =
  registry :: registry
  trace :: "event list"

definition emit :: "event \<Rightarrow> world \<Rightarrow> world" where
  "emit e w = w\<lparr>trace := trace w @ [e]\<rparr>"

text \<open>
  In a sequence of calls, \<open>a\<close> precedes \<open>b\<close> when \<open>a\<close> occurs and \<open>b\<close> occurs
  after its first occurrence.
\<close>

definition precedes :: "event \<Rightarrow> event \<Rightarrow> event list \<Rightarrow> bool" where
  "precedes a b tr \<longleftrightarrow> a \<in> set tr \<and> b \<in> set (dropWhile (\<lambda>e. e \<noteq> a) tr)"

subsection \<open>buildModule, with the registry\<close>


subsection \<open>Load and Unload\<close>

text \<open>
  The segment \<^verbatim>\<open>Load\<close> sets up once \<^verbatim>\<open>Mmap\<close> has returned the region
  \<open>cb\<close> at address \<open>p\<close>, and the empty module.
\<close>

definition newSegment :: "CodeReloc \<Rightarrow> byte list \<Rightarrow> uintptr \<Rightarrow> segment" where
  "newSegment code cb p =
     \<lparr>codeBase = p,
      dataBase = p + len (Code code),
      codeLen = len (Code code) + len (Data code),
      maxCodeLen = (len (Code code) + len (Data code)) * 2,
      offset = len (Code code) + len (Data code),
      symAddrs = replicate (length (Syms code)) 0,
      itabMap = Map.empty,
      funcType = Map.empty,
      codeByte = cb,
      codeBytePtr = p,
      typeSymPtr = Map.empty,
      err = []\<rparr>"

definition newCodeModule :: CodeModule where
  "newCodeModule =
     \<lparr>cmSyms = Map.empty, CodeByte = [], CodeBytePtr = 0, Module = None, pcfuncdata = [],
      cmStkmaps = [], itabs = [], itabSyms = [], typemap = Map.empty\<rparr>"




text \<open>
  \<^verbatim>\<open>Unload\<close>: the collection, the unlink under the lock, the unmapping. \<open>None\<close> when
  the walk of \<^verbatim>\<open>removeModule\<close> does not end.
\<close>

definition Unload :: "CodeModule \<Rightarrow> world \<Rightarrow> world option" where
  "Unload cm w =
     (let w1 = emit EvGC w;
          w2 = emit EvLock w1
      in case removeModule (registry w2) (Module cm) of
           None \<Rightarrow> None
         | Some reg' \<Rightarrow>
             let w3 = emit (EvRemoveModule (Module cm)) (w2\<lparr>registry := reg'\<rparr>);
                 w4 = emit EvUnlock w3
             in Some (emit (EvMunmap (CodeBytePtr cm)) w4))"

subsection \<open>Concrete inputs\<close>

text \<open>
  A host whose allocator maps zeroed memory at 4 GiB, and a one-function image: the text
  symbol \<^verbatim>\<open>main.f\<close> of \<open>n\<close> bytes with one relocation of kind \<open>ty\<close> at
  offset \<open>site\<close> against the external \<^verbatim>\<open>main.g\<close>.
\<close>

definition H0 :: host where
  "H0 = \<lparr>TLSNAME = ''(TLS)'', R_CALLIND_NAME = ''R_CALLIND'',
          Mmap = (\<lambda>n. Inr (replicate (unat n) 0, 0x100000000)),
          RegTLS = (\<lambda>m off. m(''(TLS)'' \<mapsto> off)),
          getitab = (\<lambda>i t. 0),
          addIFaceSubFuncType = (\<lambda>x i c. x),
          readFuncData = (\<lambda>x s all i off. x),
          funcSize = 40, pclntableAddr = 0x20000000, pcfuncAddr = 0x30000000, moduleAddr = 2,
          mapOrder = (\<lambda>m. [])\<rparr>"

definition symG :: SymData where
  "symG = \<lparr>Name = ''main.g'', Kind = 0, Offset = - 1, Reloc = []\<rparr>"

definition imageOf :: "nat \<Rightarrow> goint \<Rightarrow> goint \<Rightarrow> CodeReloc" where
  "imageOf n ty site =
     \<lparr>Code = replicate n 0x90, Data = [],
      Mod = \<lparr>pclntable = [], pcfunc = [\<lparr>idx = 0, subbuckets = replicate 16 0\<rparr>],
             funcinfo = [], ftab = [], filetab = [], stkmaps = []\<rparr>,
      Syms = [\<lparr>Name = ''main.f'', Kind = STEXT, Offset = 0,
               Reloc = [\<lparr>RelocOffset = site, SymOff = 1, Size = 4, Type = ty, Add = 0\<rparr>]\<rparr>,
              symG]\<rparr>"

text \<open>
  The segment as \<^verbatim>\<open>Load\<close> has it when \<^verbatim>\<open>relocate\<close> starts, with
  \<^verbatim>\<open>main.g\<close> resolved to \<open>target\<close>.
\<close>

definition segOf :: "CodeReloc \<Rightarrow> goint \<Rightarrow> segment" where
  "segOf code target =
     (newSegment code (replicate (2 * (length (Code code) + length (Data code))) 0) 0x100000000)
       \<lparr>symAddrs := [0x100000000, target]\<rparr>"

definition w0 :: world where
  "w0 = \<lparr>registry = reg0, trace = []\<rparr>"

text \<open>
  What a run of \<^verbatim>\<open>relocate\<close> leaves: the two blobs, the bump offset, the mapped
  region and the diagnostics.
\<close>

definition relocOutcome :: "fault + (CodeReloc \<times> CodeModule \<times> segment)
    \<Rightarrow> fault + (byte list \<times> byte list \<times> goint \<times> byte list \<times> string)" where
  "relocOutcome r = map_sum id (\<lambda>(c, m, s). (Code c, Data c, offset s, codeByte s, err s)) r"

text \<open>A loaded module whose handle is node 1 of \<open>reg0\<close>, mapped at 4 GiB.\<close>

definition cm1 :: CodeModule where
  "cm1 = newCodeModule\<lparr>CodeByte := replicate 32 0, CodeBytePtr := 0x100000000, Module := Some 1\<rparr>"

text \<open>
  An image of two 8-byte functions, \<^verbatim>\<open>main.f\<close> at code offset 0 and
  \<^verbatim>\<open>main.h\<close> at code offset 8, listed in this order in the function table, and the
  segment \<^verbatim>\<open>buildModule\<close> receives for it.
\<close>

definition image2 :: CodeReloc where
  "image2 =
     \<lparr>Code = replicate 16 0x90, Data = [],
      Mod = \<lparr>pclntable = [], pcfunc = [\<lparr>idx = 0, subbuckets = replicate 16 0\<rparr>],
             funcinfo = [\<lparr>npcdata = 0, nfuncdata = 1, pcdata = [], funcdata = [0]\<rparr>,
                         \<lparr>npcdata = 0, nfuncdata = 1, pcdata = [], funcdata = [0]\<rparr>],
             ftab = [\<lparr>entry = 0, funcoff = 0\<rparr>, \<lparr>entry = 1, funcoff = 0\<rparr>],
             filetab = [], stkmaps = []\<rparr>,
      Syms = [\<lparr>Name = ''main.f'', Kind = STEXT, Offset = 0, Reloc = []\<rparr>,
              \<lparr>Name = ''main.h'', Kind = STEXT, Offset = 8, Reloc = []\<rparr>]\<rparr>"

definition seg2 :: segment where
  "seg2 = (newSegment image2 (replicate 32 0) 0x100000000)
            \<lparr>symAddrs := [0x100000000, 0x100000008]\<rparr>"


text \<open>The pair \<^verbatim>\<open>adrp x0, 0\<close>; \<^verbatim>\<open>add x0, x0, 0\<close>.\<close>

definition adrpAddPair :: "byte list" where
  "adrpAddPair = [0x00, 0x00, 0x00, 0x90, 0x00, 0x00, 0x00, 0x91]"

text \<open>
  A thread-local relocation at site offset 5 against a name no unit defines, and an image
  whose second symbol is the record the builder synthesizes for it.
\<close>

definition reTLS :: objReloc where
  "reTLS = \<lparr>oOffset = 5, oSize = 4, oSymName = ''runtime.tlsg'', oAdd = 0, oType = R_TLS_LE\<rparr>"

definition imageTLS :: CodeReloc where
  "imageTLS =
     \<lparr>Code = replicate 16 0x90, Data = [],
      Mod = emptyModule,
      Syms = [\<lparr>Name = ''main.f'', Kind = STEXT, Offset = 0,
               Reloc = [\<lparr>RelocOffset = 5, SymOff = 1, Size = 4, Type = R_TLS_LE, Add = 0\<rparr>]\<rparr>,
              exSymOf H0 reTLS]\<rparr>"

definition segTLS :: segment where
  "segTLS = newSegment imageTLS (replicate 32 0) 0x100000000"

text \<open>The resolved-address array \<^verbatim>\<open>addSymAddrs\<close> leaves.\<close>

definition resolved :: "fault + ((string \<rightharpoonup> uintptr) \<times> CodeModule \<times> segment) \<Rightarrow> fault + goint list" where
  "resolved r = map_sum id (\<lambda>(sp, cm, seg). symAddrs seg) r"



text \<open>
  Two compilation-unit symbols that call each other, \<^verbatim>\<open>main.f\<close> and
  \<^verbatim>\<open>main.h\<close>; the second also calls the external \<^verbatim>\<open>main.g\<close>.
\<close>

definition objF :: objSym where
  "objF = \<lparr>oName = ''main.f'', oKind = STEXT, oDupOK = False,
           oPayload = Some [0xe8, 0, 0, 0, 0, 0xc3],
           oReloc = [\<lparr>oOffset = 1, oSize = 4, oSymName = ''main.h'', oAdd = 0, oType = R_CALL\<rparr>]\<rparr>"

definition objH :: objSym where
  "objH = \<lparr>oName = ''main.h'', oKind = STEXT, oDupOK = False,
           oPayload = Some [0xe8, 0, 0, 0, 0, 0xe8, 0, 0, 0, 0, 0xc3],
           oReloc = [\<lparr>oOffset = 1, oSize = 4, oSymName = ''main.f'', oAdd = 0, oType = R_CALL\<rparr>,
                     \<lparr>oOffset = 6, oSize = 4, oSymName = ''main.g'', oAdd = 0, oType = R_CALL\<rparr>]\<rparr>"

text \<open>
  The index returned by \<^verbatim>\<open>relocSym\<close>, and the outcome of calling it a second time
  for the same symbol on the state the first call left: the two indices, and whether the
  image is the same after the second call as after the first.
\<close>

definition internedAt :: "(fault + (bstate \<times> goint)) option \<Rightarrow> (fault + goint) option" where
  "internedAt r = map_option (map_sum id snd) r"

definition internTwice :: "nat \<Rightarrow> host \<Rightarrow> (string \<rightharpoonup> objSym) \<Rightarrow> objSym \<Rightarrow> bstate
    \<Rightarrow> (goint \<times> goint \<times> bool) option" where
  "internTwice n H allSyms curSym st =
     (case relocSym n H allSyms curSym st of
        Some (Inr (st1, i)) \<Rightarrow>
          (case relocSym n H allSyms curSym st1 of
             Some (Inr (st2, j)) \<Rightarrow> Some (i, j, reloc st2 = reloc st1)
           | _ \<Rightarrow> None)
      | _ \<Rightarrow> None)"

text \<open>The blobs and the symbol table of a built image: name and offset of each record.\<close>

definition layout :: "(fault + CodeReloc) option \<Rightarrow> (fault + (byte list \<times> byte list \<times> (string \<times> goint) list)) option" where
  "layout r = map_option (map_sum id (\<lambda>c. (Code c, Data c, map (\<lambda>s. (Name s, Offset s)) (Syms c)))) r"

section \<open>Sequencing of fallible steps\<close>

lemma bindE_Inr_iff:
  "bindE m f = Inr y \<longleftrightarrow> (\<exists>x. m = Inr x \<and> f x = Inr y)"
  by (cases m) (auto simp: bindE_def)


section \<open>The module registry: insert and unlink\<close>

lemma traversal_upd_other:
  "b \<notin> set as \<Longrightarrow> traversal (nx(b := v)) p as = traversal nx p as"
  by (induction as arbitrary: p) auto

lemma traversal_fun:
  "traversal nx p as \<Longrightarrow> traversal nx p bs \<Longrightarrow> as = bs"
proof (induction as arbitrary: p bs)
  case Nil
  then show ?case by (cases bs) auto
next
  case (Cons a as)
  then show ?case by (cases bs) auto
qed

lemma traversal_app:
  "traversal nx p (as @ b # bs) \<Longrightarrow> traversal nx (Some b) (b # bs)"
  by (induction as arbitrary: p) auto

lemma traversal_notin:
  assumes "traversal nx (nx a) as"
  shows "a \<notin> set as"
proof
  assume "a \<in> set as"
  then obtain xs ys where as: "as = xs @ a # ys"
    by (auto simp: in_set_conv_decomp)
  with assms have "traversal nx (Some a) (a # ys)"
    using traversal_app by blast
  then have "traversal nx (nx a) ys" by simp
  with assms have "as = ys" by (rule traversal_fun)
  with as show False by simp
qed

lemma traversal_distinct:
  "traversal nx p as \<Longrightarrow> distinct as"
  by (induction as arbitrary: p) (auto dest: traversal_notin)

lemma addModule_walk_append:
  "traversal nx (Some d) (d # ps) \<Longrightarrow>
   addModule_walk nx d a = Some (nx(last (d # ps) := Some a))"
proof (induction ps arbitrary: d)
  case Nil
  then show ?case by (subst addModule_walk.simps) simp
next
  case (Cons p ps)
  from Cons.prems have "traversal nx (Some p) (p # ps)" and "nx d = Some p" by auto
  then show ?case using Cons.IH [of p] by (subst addModule_walk.simps) (auto simp: fun_upd_def)
qed

lemma traversal_last_nil:
  "traversal nx (Some d) (d # ps) \<Longrightarrow> nx (last (d # ps)) = None"
  by (induction ps arbitrary: d) auto

lemma traversal_snoc:
  "traversal nx p ps \<Longrightarrow> ps \<noteq> [] \<Longrightarrow> a \<notin> set ps \<Longrightarrow> nx a = None \<Longrightarrow>
   traversal (nx(last ps := Some a)) p (ps @ [a])"
proof (induction ps arbitrary: p)
  case Nil
  then show ?case by simp
next
  case (Cons q qs)
  show ?case
  proof (cases "qs = []")
    case True
    with Cons.prems show ?thesis by auto
  next
    case False
    from Cons.prems(1) have "distinct (q # qs)" by (rule traversal_distinct)
    with False have "last qs \<noteq> q" by auto
    with Cons False show ?thesis by auto
  qed
qed

lemma removeModule_walk_last:
  "traversal nx (Some d) (d # ps @ [a]) \<Longrightarrow> a \<notin> set (d # ps) \<Longrightarrow> m = Some a \<Longrightarrow>
   removeModule_walk nx prevp (Some d) m =
     Some (nx(last (prevp # d # ps) := nx a))"
proof (induction ps arbitrary: d prevp)
  case Nil
  then show ?case
    by (subst removeModule_walk.simps, simp, subst removeModule_walk.simps, simp)
next
  case (Cons p ps)
  then show ?case by (subst removeModule_walk.simps) auto
qed

text \<open>
  Claim C7. When the registry is a nil-terminated chain from \<^verbatim>\<open>firstmoduledata\<close>
  and the new node is fresh (not on the chain, its \<^verbatim>\<open>next\<close> nil, not a key of
  \<^verbatim>\<open>modules\<close>), \<^verbatim>\<open>addModule\<close> returns, the traversal afterwards is the old
  one with the new node appended at the tail, and \<^verbatim>\<open>removeModule\<close> of that node
  gives back exactly the registry before the insert.
\<close>

theorem registry_add_remove:
  assumes tr: "traversal (nxt reg) (Some firstmoduledata) (firstmoduledata # ps)"
    and fresh: "a \<notin> set (firstmoduledata # ps)"
    and nil: "nxt reg a = None"
    and unreg: "a \<notin> modules reg"
  shows "\<exists>reg'. addModule reg a = Some (reg', Some a)
           \<and> traversal (nxt reg') (Some firstmoduledata) (firstmoduledata # ps @ [a])
           \<and> removeModule reg' (Some a) = Some reg"
proof -
  let ?l = "last (firstmoduledata # ps)"
  let ?nx' = "(nxt reg)(?l := Some a)"
  let ?reg' = "\<lparr>modules = insert a (modules reg), nxt = ?nx'\<rparr>"
  have add: "addModule reg a = Some (?reg', Some a)"
    using addModule_walk_append [OF tr, of a] by (simp add: addModule_def)
  have tr': "traversal ?nx' (Some firstmoduledata) ((firstmoduledata # ps) @ [a])"
    using traversal_snoc [OF tr _ fresh nil] by simp
  have "removeModule_walk ?nx' firstmoduledata (Some firstmoduledata) (Some a)
          = Some (?nx'(last (firstmoduledata # firstmoduledata # ps) := ?nx' a))"
    using tr' fresh by (intro removeModule_walk_last) auto
  moreover have "?nx' a = None" using nil fresh by auto
  moreover have "nxt reg ?l = None" using tr by (rule traversal_last_nil)
  ultimately have "removeModule_walk ?nx' firstmoduledata (Some firstmoduledata) (Some a) = Some (nxt reg)"
    by (auto simp: fun_upd_idem)
  then have "removeModule ?reg' (Some a) = Some reg"
    using unreg by (simp add: removeModule_def)
  with add tr' show ?thesis by auto
qed


theorem registry_add_remove_witness:
  "traversal (nxt reg0) (Some firstmoduledata) (firstmoduledata # [1])
   \<and> 2 \<notin> set (firstmoduledata # [1]) \<and> nxt reg0 2 = None \<and> 2 \<notin> modules reg0
   \<and> (\<exists>reg'. addModule reg0 2 = Some (reg', Some 2)
           \<and> traversal (nxt reg') (Some firstmoduledata) (firstmoduledata # [1] @ [2])
           \<and> removeModule reg' (Some 2) = Some reg0)"
proof -
  have h1: "traversal (nxt reg0) (Some firstmoduledata) (firstmoduledata # [1])"
    by (simp add: reg0_def firstmoduledata_def)
  have h2: "2 \<notin> set (firstmoduledata # [1])"
    by (simp add: firstmoduledata_def)
  have h3: "nxt reg0 2 = None" by (simp add: reg0_def)
  have h4: "2 \<notin> modules reg0" by (simp add: reg0_def)
  from registry_add_remove [OF h1 h2 h3 h4] h1 h2 h3 h4 show ?thesis by blast
qed


section \<open>The range test of R_CALL and R_PCREL sites\<close>

text \<open>
  The test of line 495 in terms of the signed value of the displacement, and what
  \<^verbatim>\<open>relocate\<close> does with a site that passes it: one four-byte store of the
  displacement at the site.
\<close>

lemma pcrelOverflow_range:
  "pcrelOverflow off \<longleftrightarrow> \<not> (- 0x8000000 \<le> sint off \<and> sint off \<le> 0x7fffffff)"
  by (auto simp: pcrelOverflow_def word_sless_alt)

lemma relocCallPcrel_direct:
  "\<not> pcrelOverflow (pcrelDisp curSym loc sa seg) \<Longrightarrow>
   relocCallPcrel curSym tsym loc sa (code, seg) =
     bindE (PutUint32 (relocByteOf curSym code) (RelocOffset loc)
              (ucast (pcrelDisp curSym loc sa seg)))
       (\<lambda>rb'. Inr (setRelocByte curSym code rb', seg))"
  by (simp add: relocCallPcrel_def Let_def)

text \<open>
  Claim C1, on the code: for the one-call image at 4 GiB and a target that puts the
  displacement at \<open>- 0x80000000\<close>, the lower end of the signed 32-bit range,
  \<^verbatim>\<open>relocate\<close> does not write the displacement at the site. It emits the 14-byte
  jump stub at the bump offset 16, moves the offset to 30, and writes the distance to the
  stub (10) at the site. The same happens at \<open>- 0x8000001\<close>, the first value below
  the bound \<open>- 0x8000000\<close> that line 495 of the source tests.
\<close>

theorem relocate_lower_boundary:
  "sint (pcrelDisp (Syms (imageOf 16 R_CALL 2) ! 0) (Reloc (Syms (imageOf 16 R_CALL 2) ! 0) ! 0)
           0x80000006 (segOf (imageOf 16 R_CALL 2) 0x80000006)) = - 0x80000000
   \<and> relocOutcome (relocate H0 Map.empty
         (imageOf 16 R_CALL 2, newCodeModule, segOf (imageOf 16 R_CALL 2) 0x80000006))
       = Inr (replicate 2 0x90 @ [10, 0, 0, 0] @ replicate 10 0x90, [], 30,
              replicate 16 0 @ [0xff, 0x25, 0, 0, 0, 0, 0x06, 0, 0, 0x80, 0, 0, 0, 0]
                @ replicate 2 0, [])
   \<and> sint (pcrelDisp (Syms (imageOf 16 R_CALL 2) ! 0) (Reloc (Syms (imageOf 16 R_CALL 2) ! 0) ! 0)
           0xF8000005 (segOf (imageOf 16 R_CALL 2) 0xF8000005)) = - 0x8000001
   \<and> relocOutcome (relocate H0 Map.empty
         (imageOf 16 R_CALL 2, newCodeModule, segOf (imageOf 16 R_CALL 2) 0xF8000005))
       = Inr (replicate 2 0x90 @ [10, 0, 0, 0] @ replicate 10 0x90, [], 30,
              replicate 16 0 @ [0xff, 0x25, 0, 0, 0, 0, 0x05, 0, 0, 0xF8, 0, 0, 0, 0]
                @ replicate 2 0, [])"
  by code_simp

section \<open>The capacity test before a stub is emitted\<close>

text \<open>
  Claim C10, on the code. Three images whose only relocation overflows and passes the
  capacity test, in a region of twice the image's length:
  \<^item> 12 bytes of code, \<^verbatim>\<open>R_CALLARM64\<close>: the test \<open>offset + 4 \<le> maxCodeLen\<close> holds
    (16 against 24), the 16-byte stub is cut to 12 bytes by \<^verbatim>\<open>copy\<close>, and the pointer
    store at offset 20 writes 8 bytes where 4 remain: it reaches past the region.
  \<^item> 8 bytes of code, \<^verbatim>\<open>R_CALL\<close>: the test \<open>offset + 8 \<le> maxCodeLen\<close> holds (16
    against 16), and the store of the target address at offset 14 panics.
  \<^item> 10 bytes of code, \<^verbatim>\<open>R_CALL\<close>: the test holds (18 against 20),
    \<^verbatim>\<open>relocate\<close> returns, the stub is cut to its first 10 bytes and the bump offset
    is 24, beyond the region's 20 bytes.
\<close>

theorem stub_exceeds_capacity:
  "\<not> maxCodeLen (segOf (imageOf 12 R_CALLARM64 4) 0x110000000)
        <s offset (segOf (imageOf 12 R_CALLARM64 4) 0x110000000) + 4
   \<and> relocOutcome (relocate H0 Map.empty
         (imageOf 12 R_CALLARM64 4, newCodeModule, segOf (imageOf 12 R_CALLARM64 4) 0x110000000))
       = Inl UnsafeWriteOutOfBounds
   \<and> \<not> maxCodeLen (segOf (imageOf 8 R_CALL 2) 0x200000000)
        <s offset (segOf (imageOf 8 R_CALL 2) 0x200000000) + 8
   \<and> relocOutcome (relocate H0 Map.empty
         (imageOf 8 R_CALL 2, newCodeModule, segOf (imageOf 8 R_CALL 2) 0x200000000))
       = Inl IndexOutOfRange
   \<and> \<not> maxCodeLen (segOf (imageOf 10 R_CALL 2) 0x80000000)
        <s offset (segOf (imageOf 10 R_CALL 2) 0x80000000) + 8
   \<and> relocOutcome (relocate H0 Map.empty
         (imageOf 10 R_CALL 2, newCodeModule, segOf (imageOf 10 R_CALL 2) 0x80000000))
       = Inr (replicate 2 0x90 @ [4, 0, 0, 0] @ replicate 4 0x90, [], 24,
              replicate 10 0 @ [0xff, 0x25, 0, 0, 0, 0, 0, 0, 0, 0x80], [])
   \<and> maxCodeLen (segOf (imageOf 10 R_CALL 2) 0x80000000) = 20"
  by code_simp

section \<open>The order of the steps of Unload\<close>

lemma emit_trace: "trace (emit e w) = trace w @ [e]"
  by (simp add: emit_def)

lemma emit_registry: "registry (emit e w) = registry w"
  by (simp add: emit_def)

text \<open>
  Claim C2 as stated fails on the code: for the module registered as node 1, the calls of
  \<^verbatim>\<open>Unload\<close> are collection, lock, unlink, unlock, unmap, and the unlink does not
  precede the collection.
\<close>

theorem Unload_unlink_first_counterexample:
  "map_option trace (Unload cm1 w0)
     = Some [EvGC, EvLock, EvRemoveModule (Some 1), EvUnlock, EvMunmap 0x100000000]
   \<and> \<not> precedes (EvRemoveModule (Some 1)) EvGC
         [EvGC, EvLock, EvRemoveModule (Some 1), EvUnlock, EvMunmap 0x100000000]"
  by code_simp

text \<open>
  Claim C2, amended: whenever \<^verbatim>\<open>Unload\<close> returns, it has first forced the
  collection, then taken the lock, unlinked the module's node with \<^verbatim>\<open>removeModule\<close>
  and released the lock, and only then unmapped the module's memory:
  collect, then unlink, then unmap.
\<close>

theorem Unload_order:
  assumes "Unload cm w = Some w'"
  shows "trace w' = trace w @ [EvGC, EvLock, EvRemoveModule (Module cm), EvUnlock,
                               EvMunmap (CodeBytePtr cm)]
         \<and> removeModule (registry w) (Module cm) = Some (registry w')"
  using assms
  by (auto simp: Unload_def Let_def emit_trace emit_registry split: option.splits)

theorem Unload_order_witness:
  "map_option trace (Unload cm1 w0)
     = Some (trace w0 @ [EvGC, EvLock, EvRemoveModule (Module cm1), EvUnlock,
                         EvMunmap (CodeBytePtr cm1)])"
proof -
  have "map_option trace (Unload cm1 w0) \<noteq> None" by code_simp
  then obtain w' where h: "Unload cm1 w0 = Some w'" by auto
  from Unload_order [OF h] h show ?thesis by simp
qed

section \<open>The function table of buildModule\<close>

lemma shiftUp_length: "length (shiftUp n xs) = length xs"
  by (induction n arbitrary: xs) auto











section \<open>relocADRP: the fallback test and the patched pair\<close>

lemma length_le_bytes [simp]: "length (le_bytes n w) = n"
  by (simp add: le_bytes_def)

lemma PutUint32_start:
  "4 \<le> length b \<Longrightarrow> PutUint32 b 0 v = Inr (le_bytes 4 v @ drop 4 b)"
  by (simp add: PutUint32_def sliceOK_def overwrite_def)

lemma PutUint32_second:
  "length xs = 4 \<Longrightarrow> 4 \<le> length ys \<Longrightarrow>
   PutUint32 (xs @ ys) 4 v = Inr (xs @ le_bytes 4 v @ drop 4 ys)"
  by (simp add: PutUint32_def sliceOK_def overwrite_def word_sle_eq)

lemma Uint32_mov32bit:
  "Uint32 (take 4 mov32bit) = Inr 0xD2800000" "Uint32 (drop 4 mov32bit) = Inr 0xF2A00000"
  by (simp_all add: Uint32_def mov32bit_def)

lemma Uint32_len: "Uint32 b = Inr w \<Longrightarrow> 4 \<le> length b"
  by (simp add: Uint32_def split: if_splits)

lemma field19: "(ucast (x AND 0x7ffff :: goint) :: uint32) AND 0x7ffff = ucast (x AND 0x7ffff)"
  by (rule bit_word_eqI) (auto simp: bit_simps)

text \<open>
  Claim C4, amended. On two instructions \<open>adrp\<close>, \<open>adrpAdd\<close> read from the first
  eight bytes of \<open>mCode\<close>: \<^verbatim>\<open>relocADRP\<close> emits the mov-immediate pair (low 16 bits
  of the target, then its next 16 bits shifted, into the register of \<open>adrp\<close>) exactly
  when the signed page delta lies outside the signed 32-bit range; otherwise it patches
  the pair in place, or-ing the low 12 bits of the target into the immediate of the
  second instruction (bits 10 and up) and the two low bits of the page number delta into
  bits 29 and 30 of the first, together with a 19-bit value in bits 5 to 23.
\<close>

theorem relocADRP_cases:
  assumes a: "Uint32 mCode = Inr adrp" and b: "Uint32 (drop 4 mCode) = Inr adrpAdd"
  shows "(0x7FFFFFFF < sint (pageDelta pc symAddr) \<or> sint (pageDelta pc symAddr) < - 0x80000000
           \<longrightarrow> relocADRP mCode pc symAddr =
                 Inr (le_bytes 4 (((adrp AND 0x1f) OR 0xD2800000)
                                   OR push_bit 5 (ucast symAddr AND 0xffff))
                      @ le_bytes 4 (((adrp AND 0x1f) OR 0xF2A00000)
                                   OR push_bit 5 (drop_bit 16 (ucast symAddr AND 0xffff0000)))
                      @ drop 8 mCode))
       \<and> (- 0x80000000 \<le> sint (pageDelta pc symAddr) \<and> sint (pageDelta pc symAddr) \<le> 0x7FFFFFFF
           \<longrightarrow> (\<exists>hi :: uint32. hi AND 0x7ffff = hi \<and>
                 relocADRP mCode pc symAddr =
                   Inr (le_bytes 4 (adrp OR (push_bit 29 (ucast (signed_drop_bit 12 (pageDelta pc symAddr) AND 3))
                                             OR push_bit 5 hi))
                        @ le_bytes 4 (adrpAdd OR ucast (push_bit 10 (symAddr AND 0xfff)))
                        @ drop 8 mCode)))"
proof -
  from a have l4: "4 \<le> length mCode" by (rule Uint32_len)
  from b have l8: "4 \<le> length (drop 4 mCode)" by (rule Uint32_len)
  have d8: "drop 4 (drop 4 mCode) = drop 8 mCode" by simp
  show ?thesis
  proof (intro conjI impI)
    assume "0x7FFFFFFF < sint (pageDelta pc symAddr) \<or> sint (pageDelta pc symAddr) < - 0x80000000"
    then show "relocADRP mCode pc symAddr =
                 Inr (le_bytes 4 (((adrp AND 0x1f) OR 0xD2800000)
                                   OR push_bit 5 (ucast symAddr AND 0xffff))
                      @ le_bytes 4 (((adrp AND 0x1f) OR 0xF2A00000)
                                   OR push_bit 5 (drop_bit 16 (ucast symAddr AND 0xffff0000)))
                      @ drop 8 mCode)"
      using a l4 l8
      by (simp add: relocADRP_def pageDelta_def Let_def word_sless_alt bindE_def
          Uint32_mov32bit PutUint32_start PutUint32_second d8)
  next
    assume r: "- 0x80000000 \<le> sint (pageDelta pc symAddr) \<and> sint (pageDelta pc symAddr) \<le> 0x7FFFFFFF"
    let ?hi = "ucast (signed_drop_bit 15 (pageDelta pc symAddr) AND 0x7ffff) :: uint32"
    have "relocADRP mCode pc symAddr =
                   Inr (le_bytes 4 (adrp OR (push_bit 29 (ucast (signed_drop_bit 12 (pageDelta pc symAddr) AND 3))
                                             OR push_bit 5 ?hi))
                        @ le_bytes 4 (adrpAdd OR ucast (push_bit 10 (symAddr AND 0xfff)))
                        @ drop 8 mCode)"
      using a b l4 l8 r
      by (simp add: relocADRP_def pageDelta_def Let_def word_sless_alt bindE_def
          PutUint32_start PutUint32_second d8)
    with field19 show "\<exists>hi :: uint32. hi AND 0x7ffff = hi \<and>
                 relocADRP mCode pc symAddr =
                   Inr (le_bytes 4 (adrp OR (push_bit 29 (ucast (signed_drop_bit 12 (pageDelta pc symAddr) AND 3))
                                             OR push_bit 5 hi))
                        @ le_bytes 4 (adrpAdd OR ucast (push_bit 10 (symAddr AND 0xfff)))
                        @ drop 8 mCode)"
      by blast
  qed
qed

text \<open>
  Claim C4 as stated fails on the code: from page 0 to the target \<open>0x80000000\<close> the
  page delta is \<open>2 ^ 31\<close>, inside the signed 33-bit range, and \<^verbatim>\<open>relocADRP\<close>
  replaces the pair by \<^verbatim>\<open>movz x0, 0\<close>; \<^verbatim>\<open>movk x0, 0x8000, lsl 16\<close>.
\<close>

theorem relocADRP_33bit_counterexample:
  "relocADRP adrpAddPair 0 0x80000000 = Inr [0x00, 0x00, 0x80, 0xD2, 0x00, 0x00, 0xB0, 0xF2]
   \<and> - (2 ^ 32) \<le> sint (pageDelta 0 0x80000000) \<and> sint (pageDelta 0 0x80000000) < 2 ^ 32"
  by code_simp


theorem relocADRP_cases_witness:
  "Uint32 adrpAddPair = Inr 0x90000000 \<and> Uint32 (drop 4 adrpAddPair) = Inr 0x91000000
   \<and> (- 0x80000000 \<le> sint (pageDelta 0x100000000 0x100003004)
        \<and> sint (pageDelta 0x100000000 0x100003004) \<le> 0x7FFFFFFF)
   \<and> (\<exists>hi :: uint32. hi AND 0x7ffff = hi \<and>
         relocADRP adrpAddPair 0x100000000 0x100003004 =
           Inr (le_bytes 4 (0x90000000 OR (push_bit 29 (ucast (signed_drop_bit 12
                                 (pageDelta 0x100000000 0x100003004) AND 3))
                                 OR push_bit 5 hi))
                @ le_bytes 4 ((0x91000000 :: uint32) OR ucast (push_bit 10 (0x100003004 AND 0xfff :: goint)))
                @ drop 8 adrpAddPair))
   \<and> (0x7FFFFFFF < sint (pageDelta 0 0x100000000)
        \<or> sint (pageDelta 0 0x100000000) < - 0x80000000)
   \<and> relocADRP adrpAddPair 0 0x100000000 =
         Inr (le_bytes 4 ((((0x90000000 :: uint32) AND 0x1f) OR 0xD2800000)
                           OR push_bit 5 (ucast (0x100000000 :: goint) AND 0xffff))
              @ le_bytes 4 ((((0x90000000 :: uint32) AND 0x1f) OR 0xF2A00000)
                           OR push_bit 5 (drop_bit 16 (ucast (0x100000000 :: goint) AND 0xffff0000)))
              @ drop 8 adrpAddPair)"
proof -
  have a: "Uint32 adrpAddPair = Inr 0x90000000" by code_simp
  have b: "Uint32 (drop 4 adrpAddPair) = Inr 0x91000000" by code_simp
  have r1a: "- 0x80000000 \<le> sint (pageDelta 0x100000000 0x100003004)" by code_simp
  have r1b: "sint (pageDelta 0x100000000 0x100003004) \<le> 0x7FFFFFFF" by code_simp
  have r2: "0x7FFFFFFF < sint (pageDelta 0 0x100000000)
        \<or> sint (pageDelta 0 0x100000000) < - 0x80000000" by code_simp
  note c1 = relocADRP_cases [where pc = "0x100000000" and symAddr = "0x100003004", OF a b,
                             THEN conjunct2, THEN mp, OF conjI [OF r1a r1b]]
  note c2 = relocADRP_cases [where pc = "0" and symAddr = "0x100000000", OF a b,
                             THEN conjunct1, THEN mp, OF r2]
  show ?thesis
    by (intro conjI) (fact a b r1a r1b r2 c1 c2)+
qed

section \<open>Sites that fit leave the trampoline area alone\<close>

lemma setRelocByte_Syms [simp]: "Syms (setRelocByte curSym code b) = Syms code"
  by (simp add: setRelocByte_def)














section \<open>Thread-local symbols in the address resolver\<close>

lemma setAt_Inr: "setAt xs i v = Inr ys \<Longrightarrow> ys = xs[i := v] \<and> i < length xs"
  by (auto simp: setAt_def split: if_splits)

lemma addSymAddr_other:
  assumes "addSymAddr H (j, s) (sp, cm, seg) = Inr (sp', cm', seg')" and "j \<noteq> i"
  shows "symAddrs seg' ! i = symAddrs seg ! i"
  using assms
  by (auto simp: addSymAddr_def bindE_Inr_iff Let_def dest!: setAt_Inr
           split: if_splits option.splits)

lemma addSymAddr_tls:
  assumes "Name s = TLSNAME H" and "Offset s \<noteq> - 1"
  shows "addSymAddr H (j, s) (sp, cm, seg) = Inr (RegTLS H sp (Offset s), cm, seg)"
  using assms by (simp add: addSymAddr_def)

lemma addSymAddrs_loop:
  assumes "foldE (addSymAddr H) ps (sp, cm, seg) = Inr (sp', cm', seg')"
    and "\<forall>(j, s) \<in> set ps. j = i \<longrightarrow> Name s = TLSNAME H \<and> Offset s \<noteq> - 1"
  shows "symAddrs seg' ! i = symAddrs seg ! i"
  using assms
proof (induction ps arbitrary: sp cm seg)
  case Nil
  then show ?case by simp
next
  case (Cons p ps)
  obtain j s where p: "p = (j, s)" by (cases p)
  from Cons.prems(1) p obtain sp1 cm1 seg1 where
    one: "addSymAddr H (j, s) (sp, cm, seg) = Inr (sp1, cm1, seg1)" and
    rest: "foldE (addSymAddr H) ps (sp1, cm1, seg1) = Inr (sp', cm', seg')"
    by (auto simp: bindE_Inr_iff)
  have "symAddrs seg1 ! i = symAddrs seg ! i"
  proof (cases "j = i")
    case True
    with Cons.prems(2) p have "Name s = TLSNAME H" "Offset s \<noteq> - 1" by auto
    from addSymAddr_tls [OF this] one show ?thesis by simp
  next
    case False
    from addSymAddr_other [OF one False] show ?thesis .
  qed
  moreover from Cons.prems(2) have "\<forall>(j, s) \<in> set ps. j = i \<longrightarrow> Name s = TLSNAME H \<and> Offset s \<noteq> - 1"
    by simp
  from Cons.IH [OF rest this] have "symAddrs seg' ! i = symAddrs seg1 ! i" .
  ultimately show ?case by simp
qed

lemma exSymOf_tls:
  "oType re = R_TLS_LE \<Longrightarrow> Name (exSymOf H re) = TLSNAME H \<and> Offset (exSymOf H re) = oOffset re"
  by (simp add: exSymOf_def Let_def R_TLS_LE_def R_CALLIND_def)

text \<open>
  Claim C8. Let the symbol at index \<open>i\<close> of the image be the record the builder
  synthesizes for a thread-local relocation (renamed to \<^verbatim>\<open>TLSNAME\<close>, its offset
  the relocation's site offset, which as an offset into the symbol is not \<open>-1\<close>).
  Then a run of \<^verbatim>\<open>addSymAddrs\<close> never assigns entry \<open>i\<close> of the
  resolved-address array: it keeps the value it had (zero in \<^verbatim>\<open>Load\<close>), so no
  address derived from \<^verbatim>\<open>codeBase\<close> or \<^verbatim>\<open>dataBase\<close> is stored there. The
  loop body for this symbol does nothing but call \<^verbatim>\<open>RegTLS\<close> with the site offset.
\<close>

theorem addSymAddrs_tls:
  assumes ty: "oType re = R_TLS_LE" and off: "oOffset re \<noteq> - 1"
    and i: "i < length (Syms code)" and sym: "Syms code ! i = exSymOf H re"
    and run: "addSymAddrs H code (sp, cm, seg) = Inr (sp', cm', seg')"
  shows "symAddrs seg' ! i = symAddrs seg ! i
         \<and> addSymAddr H (i, exSymOf H re) (sp0, cm0, seg0)
             = Inr (RegTLS H sp0 (oOffset re), cm0, seg0)"
proof
  have t: "Name (exSymOf H re) = TLSNAME H" "Offset (exSymOf H re) \<noteq> - 1"
    using exSymOf_tls [OF ty] off by simp_all
  have "\<forall>(j, s) \<in> set (zip [0..<length (Syms code)] (Syms code)).
          j = i \<longrightarrow> Name s = TLSNAME H \<and> Offset s \<noteq> - 1"
    using t sym by (auto simp: set_zip)
  with run show "symAddrs seg' ! i = symAddrs seg ! i"
    unfolding addSymAddrs_def by (rule addSymAddrs_loop)
  from addSymAddr_tls [OF t] exSymOf_tls [OF ty]
  show "addSymAddr H (i, exSymOf H re) (sp0, cm0, seg0)
             = Inr (RegTLS H sp0 (oOffset re), cm0, seg0)"
    by simp
qed


lemma resolved_Inr:
  assumes "resolved r = Inr xs"
  obtains sp cm seg where "r = Inr (sp, cm, seg)"
  using assms by (cases r) (auto simp: resolved_def)

theorem addSymAddrs_tls_witness:
  "oType reTLS = R_TLS_LE \<and> oOffset reTLS \<noteq> - 1 \<and> 1 < length (Syms imageTLS)
   \<and> Syms imageTLS ! 1 = exSymOf H0 reTLS
   \<and> resolved (addSymAddrs H0 imageTLS (Map.empty, newCodeModule, segTLS)) = Inr [0x100000000, 0]
   \<and> map_sum id (\<lambda>xs. xs ! 1) (resolved (addSymAddrs H0 imageTLS (Map.empty, newCodeModule, segTLS)))
       = Inr (symAddrs segTLS ! 1)
   \<and> addSymAddr H0 (1, exSymOf H0 reTLS) (Map.empty, newCodeModule, segTLS)
       = Inr (RegTLS H0 Map.empty (oOffset reTLS), newCodeModule, segTLS)"
proof -
  have ty: "oType reTLS = R_TLS_LE" by code_simp
  have off: "oOffset reTLS \<noteq> - 1" by code_simp
  have i: "1 < length (Syms imageTLS)" by code_simp
  have sym: "Syms imageTLS ! 1 = exSymOf H0 reTLS" by (simp add: imageTLS_def)
  have out: "resolved (addSymAddrs H0 imageTLS (Map.empty, newCodeModule, segTLS))
               = Inr [0x100000000, 0]"
    by code_simp
  then obtain sp' cm' seg' where
    run: "addSymAddrs H0 imageTLS (Map.empty, newCodeModule, segTLS) = Inr (sp', cm', seg')"
    by (rule resolved_Inr)
  note t = addSymAddrs_tls [OF ty off i sym run, where ?sp0.0 = Map.empty and ?cm0.0 = newCodeModule
                            and ?seg0.0 = segTLS]
  have keep: "map_sum id (\<lambda>xs. xs ! 1)
                (resolved (addSymAddrs H0 imageTLS (Map.empty, newCodeModule, segTLS)))
              = Inr (symAddrs segTLS ! 1)"
    unfolding run using t [THEN conjunct1] by (simp add: resolved_def)
  show ?thesis
    by (rule conjI [OF ty conjI [OF off conjI [OF i conjI [OF sym conjI [OF out
          conjI [OF keep t [THEN conjunct2]]]]]]])
qed


section \<open>What Load returns\<close>


























section \<open>Interning in the symbol table builder\<close>

lemma addSym_symMap:
  assumes "addSym sm arr rsym = Inr (sm', arr', off)"
  shows "sm \<subseteq>\<^sub>m sm' \<and> sm' (Name rsym) = Some off"
  using assms
  by (auto simp: addSym_def bindE_Inr_iff map_le_def split: option.splits)

lemma addSym_twice:
  assumes "addSym sm arr r1 = Inr (sm1, arr1, off)"
    and "addSym sm1 arr2 r2 = Inr (sm3, arr3, off3)" and "Name r2 = Name r1"
  shows "sm \<subseteq>\<^sub>m sm3 \<and> sm3 (Name r1) = Some off"
proof -
  from addSym_symMap [OF assms(1)] have 1: "sm \<subseteq>\<^sub>m sm1" "sm1 (Name r1) = Some off"
    by simp_all
  from addSym_symMap [OF assms(2)] have 2: "sm1 \<subseteq>\<^sub>m sm3" by simp
  from 1(1) 2 have "sm \<subseteq>\<^sub>m sm3" by (rule map_le_trans)
  moreover from 1(2) 2 have "sm3 (Name r1) = Some off"
    by (auto simp: map_le_def dom_def)
  ultimately show ?thesis by simp
qed

lemma relocSymHead_symMap:
  assumes "relocSymHead H allSyms curSym st = Inr (st2, rsym, off)"
  shows "symMap st \<subseteq>\<^sub>m symMap st2 \<and> symMap st2 (oName curSym) = Some off"
proof -
  let ?rsym = "\<lparr>Name = oName curSym, Kind = oKind curSym, Offset = 0, Reloc = []\<rparr>"
  from assms obtain sm1 syms1 where
    a1: "addSym (symMap st) (Syms (reloc st)) ?rsym = Inr (sm1, syms1, off)"
    by (auto simp: relocSymHead_def Let_def bindE_Inr_iff split: option.splits)
  obtain md gc ft where rf:
    "readFuncData H (Mod (reloc st), gcObjs st, fileTabOffsetMap st) curSym allSyms off
       (len (Code (reloc st))) = (md, gc, ft)"
    by (cases "readFuncData H (Mod (reloc st), gcObjs st, fileTabOffsetMap st) curSym allSyms off
       (len (Code (reloc st)))")
  from assms a1 rf obtain arr2 r2 sm3 arr3 off3 where
    a2: "addSym sm1 arr2 r2 = Inr (sm3, arr3, off3)" and n: "Name r2 = Name ?rsym"
    and m: "symMap st2 = sm3"
    by (auto simp: relocSymHead_def Let_def bindE_Inr_iff split: option.splits if_splits)
  from addSym_twice [OF a1 a2 n] m show ?thesis by simp
qed

lemma externSym_symMap:
  assumes "externSym H re st = Inr (st', off)"
  shows "symMap st \<subseteq>\<^sub>m symMap st'"
  using assms
  by (auto simp: externSym_def Let_def bindE_Inr_iff dest!: addSym_symMap split: if_splits)

lemma relocSymTail_symMap:
  assumes "relocSymTail st rsym off = Inr (st', j)"
  shows "symMap st' = symMap st \<and> j = off"
  using assms by (auto simp: relocSymTail_def bindE_Inr_iff)

lemma relocLoop_mono_step:
  assumes IH: "\<And>cur st st' j. relocSym n H allSyms cur st = Some (Inr (st', j))
                 \<Longrightarrow> symMap st \<subseteq>\<^sub>m symMap st'"
  shows "relocLoop n H allSyms res (st, rs) = Some (Inr (st', rs'))
           \<Longrightarrow> symMap st \<subseteq>\<^sub>m symMap st'"
proof (induction res arbitrary: st rs)
  case Nil
  then show ?case by simp
next
  case (Cons re res)
  show ?case
  proof (cases "allSyms (oSymName re)")
    case None
    with Cons.prems obtain st1 o1 where
      e: "externSym H re st = Inr (st1, o1)" and
      r: "relocLoop n H allSyms res (st1, rs\<lparr>Reloc := Reloc rs @ [mkReloc re rs o1]\<rparr>)
            = Some (Inr (st', rs'))"
      by (auto split: sum.splits)
    from externSym_symMap [OF e] Cons.IH [OF r] show ?thesis by (rule map_le_trans)
  next
    case (Some s)
    with Cons.prems obtain st1 o1 where
      e: "relocSym n H allSyms s st = Some (Inr (st1, o1))" and
      r: "relocLoop n H allSyms res (st1, rs\<lparr>Reloc := Reloc rs @ [mkReloc re rs o1]\<rparr>)
            = Some (Inr (st', rs'))"
      by (auto split: sum.splits option.splits)
    from IH [OF e] Cons.IH [OF r] show ?thesis by (rule map_le_trans)
  qed
qed

lemma relocSym_mono_interned:
  "relocSym n H allSyms cur st = Some (Inr (st', j))
     \<Longrightarrow> symMap st \<subseteq>\<^sub>m symMap st' \<and> symMap st' (oName cur) = Some j"
proof (induction n arbitrary: cur st st' j)
  case 0
  then show ?case by simp
next
  case (Suc n)
  show ?case
  proof (cases "symMap st (oName cur)")
    case (Some i)
    with Suc.prems show ?thesis by auto
  next
    case None
    with Suc.prems obtain st2 rsym off st3 rsym' where
      h: "relocSymHead H allSyms cur st = Inr (st2, rsym, off)" and
      l: "relocLoop n H allSyms (oReloc cur) (st2, rsym) = Some (Inr (st3, rsym'))" and
      t: "relocSymTail st3 rsym' off = Inr (st', j)"
      by (auto split: sum.splits option.splits)
    note hm = relocSymHead_symMap [OF h]
    have lm: "symMap st2 \<subseteq>\<^sub>m symMap st3"
      using l by (rule relocLoop_mono_step [rotated]) (use Suc.IH in blast)
    note tm = relocSymTail_symMap [OF t]
    from hm lm tm have "symMap st \<subseteq>\<^sub>m symMap st'"
      by (auto intro: map_le_trans)
    moreover from hm lm tm have "symMap st' (oName cur) = Some j"
      by (auto simp: map_le_def dom_def)
    ultimately show ?thesis by simp
  qed
qed


lemma relocLoop_fuel_step:
  assumes IH: "\<And>cur st r. relocSym n H allSyms cur st = Some r
                 \<Longrightarrow> relocSym (Suc n) H allSyms cur st = Some r"
  shows "relocLoop n H allSyms res sr = Some r \<Longrightarrow> relocLoop (Suc n) H allSyms res sr = Some r"
proof (induction res arbitrary: sr)
  case Nil
  then show ?case by simp
next
  case (Cons re res)
  show ?case
  proof (cases "allSyms (oSymName re)")
    case None
    with Cons.prems Cons.IH show ?thesis
      by (auto split: sum.splits)
  next
    case (Some s)
    from Cons.prems Some obtain x where
      e: "relocSym n H allSyms s (fst sr) = Some x"
      by (auto split: option.splits)
    from IH [OF e] have e': "relocSym (Suc n) H allSyms s (fst sr) = Some x" .
    from Cons.prems Some e Cons.IH show ?thesis
      by (simp only: relocLoop.simps(2) e' option.case) (auto split: sum.splits)
  qed
qed

lemma relocSym_fuel_Suc:
  "relocSym n H allSyms cur st = Some r \<Longrightarrow> relocSym (Suc n) H allSyms cur st = Some r"
proof (induction n arbitrary: cur st r)
  case 0
  then show ?case by simp
next
  case (Suc n)
  show ?case
  proof (cases "symMap st (oName cur)")
    case (Some i)
    with Suc.prems show ?thesis by simp
  next
    case None
    show ?thesis
    proof (cases "relocSymHead H allSyms cur st")
      case (Inl e)
      with None Suc.prems show ?thesis by simp
    next
      case (Inr a)
      obtain st2 rsym off where a: "a = (st2, rsym, off)" by (cases a)
      from Suc.prems None Inr a obtain x where
        l: "relocLoop n H allSyms (oReloc cur) (st2, rsym) = Some x"
        by (auto split: option.splits)
      have l': "relocLoop (Suc n) H allSyms (oReloc cur) (st2, rsym) = Some x"
        using l by (rule relocLoop_fuel_step [rotated]) (rule Suc.IH)
      from Suc.prems None Inr a l
      have "r = (case x of Inl e \<Rightarrow> Inl e | Inr (st3, rsym') \<Rightarrow> relocSymTail st3 rsym' off)"
        by (auto split: sum.splits)
      then show ?thesis
        using None Inr a l' by (subst relocSym.simps(2)) (auto split: sum.splits)
    qed
  qed
qed

lemma relocSym_fuel:
  "n \<le> m \<Longrightarrow> relocSym n H allSyms cur st = Some r \<Longrightarrow> relocSym m H allSyms cur st = Some r"
proof (induction m)
  case 0
  then show ?case by simp
next
  case (Suc m)
  show ?case
  proof (cases "n = Suc m")
    case True
    with Suc.prems show ?thesis by simp
  next
    case False
    with Suc.prems have "n \<le> m" by simp
    from Suc.IH [OF this Suc.prems(2)] show ?thesis by (rule relocSym_fuel_Suc)
  qed
qed

lemma readRoots_fuel:
  "n \<le> m \<Longrightarrow> readRoots n H allSyms ss st = Some r \<Longrightarrow> readRoots m H allSyms ss st = Some r"
proof (induction ss arbitrary: st)
  case Nil
  then show ?case by simp
next
  case (Cons s ss)
  show ?case
  proof (cases "isRoot s")
    case False
    with Cons show ?thesis by simp
  next
    case True
    with Cons.prems obtain x where e: "relocSym n H allSyms s st = Some x"
      by (auto split: option.splits)
    from relocSym_fuel [OF Cons.prems(1) e] have e': "relocSym m H allSyms s st = Some x" .
    from Cons.prems True e e' Cons.IH show ?thesis
      by (auto split: sum.splits)
  qed
qed

lemma ReadObj_fuel:
  assumes "n \<le> m" and "ReadObj n H syms = Some r"
  shows "ReadObj m H syms = Some r"
proof -
  from assms(2) obtain x where e: "readRoots n H (symsMap syms) syms emptyBuild = Some x"
    by (auto simp: ReadObj_def split: option.splits)
  from readRoots_fuel [OF assms(1) e] assms(2) e show ?thesis
    by (simp add: ReadObj_def)
qed

text \<open>
  Claim C6. Interning is idempotent. A call of \<^verbatim>\<open>relocSym\<close> for a name already in
  the symbol map returns the index stored there and leaves the whole build state as it
  was: no record is appended and no byte is added to the code or data blob. In
  particular, once a call for a symbol has returned, a second call for it returns the
  same index and changes nothing. And the image \<^verbatim>\<open>ReadObj\<close> builds from given
  compilation units is one and the same, whatever bound on the call depth it is run
  with: two builds that return agree on every index and offset.
\<close>

theorem relocSym_interning:
  "(symMap st (oName curSym) = Some i
      \<longrightarrow> relocSym (Suc n) H allSyms curSym st = Some (Inr (st, i)))
   \<and> (relocSym n H allSyms curSym st = Some (Inr (st', j))
      \<longrightarrow> relocSym (Suc m) H allSyms curSym st' = Some (Inr (st', j)))
   \<and> (ReadObj n H syms = Some r \<and> ReadObj m H syms = Some r' \<longrightarrow> r = r')"
proof (intro conjI impI)
  assume "symMap st (oName curSym) = Some i"
  then show "relocSym (Suc n) H allSyms curSym st = Some (Inr (st, i))" by simp
next
  assume "relocSym n H allSyms curSym st = Some (Inr (st', j))"
  from relocSym_mono_interned [OF this]
  show "relocSym (Suc m) H allSyms curSym st' = Some (Inr (st', j))" by simp
next
  assume a: "ReadObj n H syms = Some r \<and> ReadObj m H syms = Some r'"
  show "r = r'"
  proof (cases "n \<le> m")
    case True
    from ReadObj_fuel [OF True] a show ?thesis by auto
  next
    case False
    then have "m \<le> n" by simp
    from ReadObj_fuel [OF this] a show ?thesis by auto
  qed
qed


lemma internedAt_Inr:
  assumes "internedAt x = Some (Inr i)"
  obtains st where "x = Some (Inr (st, i))"
proof (cases x)
  case None
  with assms show ?thesis by (simp add: internedAt_def)
next
  case (Some a)
  with assms that show ?thesis by (cases a) (auto simp: internedAt_def)
qed

lemma layout_Inr:
  assumes "layout x = Some (Inr l)"
  obtains c where "x = Some (Inr c)"
proof (cases x)
  case None
  with assms show ?thesis by (simp add: layout_def)
next
  case (Some a)
  with assms that show ?thesis by (cases a) (auto simp: layout_def)
qed

theorem relocSym_interning_witness:
  "internedAt (relocSym (Suc 0) H0 (symsMap [objF, objH]) objF
                 (emptyBuild\<lparr>symMap := [''main.f'' \<mapsto> 0]\<rparr>)) = Some (Inr 0)
   \<and> internedAt (relocSym 3 H0 (symsMap [objF, objH]) objF emptyBuild) = Some (Inr 0)
   \<and> internTwice 3 H0 (symsMap [objF, objH]) objF emptyBuild = Some (0, 0, True)
   \<and> layout (ReadObj 3 H0 [objF, objH])
       = Some (Inr ([0xe8, 0, 0, 0, 0, 0xc3, 0xe8, 0, 0, 0, 0, 0xe8, 0, 0, 0, 0, 0xc3], [],
                    [(''main.f'', 0), (''main.h'', 6), (''main.g'', - 1)]))
   \<and> ReadObj 4 H0 [objF, objH] = ReadObj 3 H0 [objF, objH]"
proof -
  let ?all = "symsMap [objF, objH]"
  let ?st = "emptyBuild\<lparr>symMap := [''main.f'' \<mapsto> 0]\<rparr>"
  have pre: "symMap ?st (oName objF) = Some 0" by (simp add: objF_def)
  from relocSym_interning [where st = ?st and curSym = objF and i = 0 and n = 0
                             and H = H0 and allSyms = ?all, THEN conjunct1, THEN mp, OF pre]
  have c1: "internedAt (relocSym (Suc 0) H0 ?all objF ?st) = Some (Inr 0)"
    by (simp only: internedAt_def option.map map_sum.simps snd_conv)
  have c2: "internedAt (relocSym 3 H0 ?all objF emptyBuild) = Some (Inr 0)"
    by code_simp
  then obtain st1 where run: "relocSym 3 H0 ?all objF emptyBuild = Some (Inr (st1, 0))"
    by (rule internedAt_Inr)
  from relocSym_interning [where n = 3 and m = 2 and H = H0 and allSyms = ?all and curSym = objF
                             and st = emptyBuild and st' = st1 and j = 0,
                           THEN conjunct2, THEN conjunct1, THEN mp, OF run]
  have again: "relocSym 3 H0 ?all objF st1 = Some (Inr (st1, 0))"
    by (simp only: eval_nat_numeral)
  have c3: "internTwice 3 H0 ?all objF emptyBuild = Some (0, 0, True)"
    by (simp add: internTwice_def run again del: relocSym.simps)
  have c4: "layout (ReadObj 3 H0 [objF, objH])
       = Some (Inr ([0xe8, 0, 0, 0, 0, 0xc3, 0xe8, 0, 0, 0, 0, 0xe8, 0, 0, 0, 0, 0xc3], [],
                    [(''main.f'', 0), (''main.h'', 6), (''main.g'', - 1)]))"
    by code_simp
  then obtain r where r3: "ReadObj 3 H0 [objF, objH] = Some (Inr r)" by (rule layout_Inr)
  have "layout (ReadObj 4 H0 [objF, objH])
       = Some (Inr ([0xe8, 0, 0, 0, 0, 0xc3, 0xe8, 0, 0, 0, 0, 0xe8, 0, 0, 0, 0, 0xc3], [],
                    [(''main.f'', 0), (''main.h'', 6), (''main.g'', - 1)]))"
    by code_simp
  then obtain r' where r4: "ReadObj 4 H0 [objF, objH] = Some (Inr r')" by (rule layout_Inr)
  from relocSym_interning [where n = 3 and m = 4 and H = H0 and syms = "[objF, objH]"
                             and r = "Inr r" and r' = "Inr r'",
                           THEN conjunct2, THEN conjunct2, THEN mp, OF conjI [OF r3 r4]]
  have c5: "ReadObj 4 H0 [objF, objH] = ReadObj 3 H0 [objF, objH]"
    by (simp add: r3 r4)
  show ?thesis
    by (rule conjI [OF c1 conjI [OF c2 conjI [OF c3 conjI [OF c4 c5]]]])
qed


end
